theory Spec2Isabelle
  imports Complex_Main "HOL-Library.Sublist"
begin


section \<open>Python strings\<close>

text \<open>
  A Python \<open>str\<close> is a sequence of code points and \<open>len\<close> counts code points. The texts
  are modelled as \<open>string\<close>, one \<open>char\<close> per code point, which covers the code points
  U+0000 to U+00FF (ASCII and Latin-1, the accented Portuguese letters included).
\<close>

abbreviation NL :: char where "NL \<equiv> CHR 0x0A"
abbreviation SP :: char where "SP \<equiv> CHR 0x20"

text \<open>
  \<open>str.isspace\<close>, which is also what \<open>str.strip()\<close>, \<open>str.split()\<close> and the regular
  expression class \<open>\s\<close> use on a \<open>str\<close>: below U+0100 the whitespace characters are
  TAB, LF, VT, FF, CR, the separators U+001C to U+001F, the space, NEL (U+0085) and the
  no-break space (U+00A0).
\<close>

definition isspace :: "char \<Rightarrow> bool" where
  "isspace c = ((of_char c :: nat) \<in> {9, 10, 11, 12, 13, 28, 29, 30, 31, 32, 133, 160})"

definition lstrip :: "string \<Rightarrow> string" where
  "lstrip s = dropWhile isspace s"

definition rstrip :: "string \<Rightarrow> string" where
  "rstrip s = rev (dropWhile isspace (rev s))"

definition strip :: "string \<Rightarrow> string" where
  "strip s = rstrip (lstrip s)"

text \<open>\<open>sep.join(parts)\<close>.\<close>

fun join :: "string \<Rightarrow> string list \<Rightarrow> string" where
  "join sep [] = []"
| "join sep [p] = p"
| "join sep (p # q # ps) = p @ sep @ join sep (q # ps)"

text \<open>\<open>texto.split('\n')\<close>: the pieces between the line feeds, always at least one piece.\<close>

fun split_nl_aux :: "string \<Rightarrow> string \<Rightarrow> string list" where
  "split_nl_aux acc [] = [rev acc]"
| "split_nl_aux acc (c # cs) =
     (if c = NL then rev acc # split_nl_aux [] cs else split_nl_aux (c # acc) cs)"

definition split_nl :: "string \<Rightarrow> string list" where
  "split_nl s = split_nl_aux [] s"

text \<open>\<open>texto.split()\<close>: the maximal runs of non-whitespace characters.\<close>

fun split_ws_aux :: "string \<Rightarrow> string \<Rightarrow> string list" where
  "split_ws_aux acc [] = (if acc = [] then [] else [rev acc])"
| "split_ws_aux acc (c # cs) =
     (if isspace c then (if acc = [] then split_ws_aux [] cs else rev acc # split_ws_aux [] cs)
      else split_ws_aux (c # acc) cs)"

definition split_ws :: "string \<Rightarrow> string list" where
  "split_ws s = split_ws_aux [] s"

subsection \<open>The regular expressions of the normalizer\<close>

text \<open>
  The pattern \<open>\n\s*\n\<close> at a line feed: \<open>\s*\<close> is greedy and a line feed is itself
  whitespace, so after backtracking the match ends at the last line feed of the maximal
  whitespace run that follows. \<open>casa_quebra cs\<close> is the number of characters of \<open>cs\<close>
  (the text after the first line feed) that the match consumes, if there is a match.
\<close>

definition casa_quebra :: "string \<Rightarrow> nat option" where
  "casa_quebra cs =
     (let ws = takeWhile isspace cs
      in if NL \<in> set ws
         then Some (length ws - length (takeWhile (\<lambda>c. c \<noteq> NL) (rev ws)))
         else None)"

text \<open>\<open>re.sub(r'\n\s*\n', '\n\n', texto)\<close>: matches are replaced from left to right.\<close>

fun sub_quebras :: "string \<Rightarrow> string" where
  "sub_quebras [] = []"
| "sub_quebras (c # cs) =
     (if c = NL
      then (case casa_quebra cs of
              Some k \<Rightarrow> NL # NL # sub_quebras (drop k cs)
            | None \<Rightarrow> c # sub_quebras cs)
      else c # sub_quebras cs)"

text \<open>\<open>re.sub(r' +', ' ', texto)\<close>: every maximal run of U+0020 becomes one space.\<close>

function sub_espacos :: "string \<Rightarrow> string" where
  "sub_espacos [] = []"
| "sub_espacos (c # cs) =
     (if c = SP then SP # sub_espacos (dropWhile (\<lambda>d. d = SP) cs) else c # sub_espacos cs)"
  by pat_completeness auto
termination
  by (relation "measure length") (auto simp: length_dropWhile_le less_Suc_eq_le)

text \<open>The character class \<open>[\x00-\x08\x0B-\x0C\x0E-\x1F\x7F]\<close>.\<close>

definition controle :: "char \<Rightarrow> bool" where
  "controle c =
     (let n = (of_char c :: nat)
      in n \<le> 8 \<or> (11 \<le> n \<and> n \<le> 12) \<or> (14 \<le> n \<and> n \<le> 31) \<or> n = 127)"

section \<open>Text Normalizer\<close>

definition limpar_texto :: "string \<Rightarrow> string" where
  "limpar_texto texto =
     (let texto1 = sub_quebras texto;
          texto2 = sub_espacos texto1;
          linhas = map strip (split_nl texto2);
          texto3 = join [NL] linhas;
          texto4 = filter (\<lambda>c. \<not> controle c) texto3
      in strip texto4)"

section \<open>Segmenter\<close>

text \<open>
  The linguistic model is an optional dependency, loaded once and cached
  (\<open>carregar_spacy\<close>). The environment holds the outcome of the load: \<open>None\<close> when the
  library or the model is missing, otherwise the model's sentence splitter, the texts of
  \<open>nlp(texto).sents\<close> in order.
\<close>

record ambiente_nlp =
  spacy :: "(string \<Rightarrow> string list) option"

definition carregar_spacy :: "ambiente_nlp \<Rightarrow> (string \<Rightarrow> string list) option" where
  "carregar_spacy amb = spacy amb"

text \<open>\<open>re.split(r'\n\s*\n', texto)\<close>.\<close>

fun split_quebras_aux :: "string \<Rightarrow> string \<Rightarrow> string list" where
  "split_quebras_aux acc [] = [rev acc]"
| "split_quebras_aux acc (c # cs) =
     (if c = NL
      then (case casa_quebra cs of
              Some k \<Rightarrow> rev acc # split_quebras_aux [] (drop k cs)
            | None \<Rightarrow> split_quebras_aux (c # acc) cs)
      else split_quebras_aux (c # acc) cs)"

definition segmentar_em_paragrafos :: "string \<Rightarrow> string list" where
  "segmentar_em_paragrafos txt =
     map strip (filter (\<lambda>p. strip p \<noteq> []) (split_quebras_aux [] txt))"

text \<open>
  The sentence pattern \<open>(?<=[.!?])\s+(?=[A-Z...])\<close>: a match starts after a full stop,
  an exclamation or a question mark, takes the whole whitespace run (a shorter run would
  be followed by whitespace, never by a capital) and needs a capital letter after it.
\<close>

definition fim_de_frase :: "char \<Rightarrow> bool" where
  "fim_de_frase c = (c = CHR ''.'' \<or> c = CHR ''!'' \<or> c = CHR ''?'')"

definition maiuscula :: "char \<Rightarrow> bool" where
  "maiuscula c =
     (let n = (of_char c :: nat)
      in (65 \<le> n \<and> n \<le> 90) \<or>
         n \<in> {193, 192, 194, 195, 201, 200, 202, 205, 207, 211, 212, 213, 214, 218, 199, 209})"

function split_frases_aux :: "string \<Rightarrow> char option \<Rightarrow> string \<Rightarrow> string list" where
  "split_frases_aux acc ant [] = [rev acc]"
| "split_frases_aux acc ant (c # cs) =
     (if (case ant of None \<Rightarrow> False | Some a \<Rightarrow> fim_de_frase a) \<and> isspace c \<and>
         (case dropWhile isspace cs of [] \<Rightarrow> False | d # _ \<Rightarrow> maiuscula d)
      then rev acc # split_frases_aux [] (Some (last (c # takeWhile isspace cs))) (dropWhile isspace cs)
      else split_frases_aux (c # acc) (Some c) cs)"
  by pat_completeness auto
termination
  by (relation "measure (\<lambda>(acc, ant, cs). length cs)")
     (auto simp: length_dropWhile_le less_Suc_eq_le)

definition segmentar_em_frases :: "string \<Rightarrow> string list" where
  "segmentar_em_frases txt =
     map strip (filter (\<lambda>f. strip f \<noteq> []) (split_frases_aux [] None txt))"

definition segmentar_em_frases_spacy :: "ambiente_nlp \<Rightarrow> string \<Rightarrow> string list" where
  "segmentar_em_frases_spacy amb txt =
     (case carregar_spacy amb of
        None \<Rightarrow> segmentar_em_frases txt
      | Some nlp \<Rightarrow> map strip (filter (\<lambda>s. strip s \<noteq> []) (nlp txt)))"

definition contar_palavras :: "string \<Rightarrow> nat" where
  "contar_palavras txt = length (split_ws txt)"

section \<open>Chunk Builder\<close>

text \<open>
  A chunk is a dictionary with the keys \<open>indice\<close>, \<open>texto\<close>, \<open>tamanho\<close>, \<open>num_palavras\<close>
  and \<open>num_sentencas\<close>; the selector adds the key \<open>similaridade\<close> to its copies, so that
  field is optional.
\<close>

record chunk =
  indice :: nat
  texto :: string
  tamanho :: nat
  num_palavras :: nat
  num_sentencas :: nat
  similaridade :: "real option"

text \<open>The local variables of the loop of \<open>criar_chunks\<close>.\<close>

record estado =
  chunks :: "chunk list"
  chunk_atual :: string
  sentencas_no_chunk :: "string list"
  indice_chunk :: nat

definition estado_inicial :: estado where
  "estado_inicial = \<lparr>chunks = [], chunk_atual = [], sentencas_no_chunk = [], indice_chunk = 0\<rparr>"

text \<open>The dictionary that \<open>chunks.append\<close> receives, at both places of the source.\<close>

definition novo_chunk :: "estado \<Rightarrow> chunk" where
  "novo_chunk st =
     \<lparr>indice = indice_chunk st,
      texto = strip (chunk_atual st),
      tamanho = length (strip (chunk_atual st)),
      num_palavras = contar_palavras (strip (chunk_atual st)),
      num_sentencas = length (sentencas_no_chunk st),
      similaridade = None\<rparr>"

text \<open>
  The inner loop \<open>for sent in reversed(sentencas_no_chunk)\<close>: the first argument is what
  is left of the reversed list, then \<open>overlap_sentencas\<close> and \<open>overlap_chars\<close>; the
  \<open>else\<close> branch is the \<open>break\<close>.
\<close>

fun overlap_loop :: "int \<Rightarrow> string list \<Rightarrow> string list \<Rightarrow> nat \<Rightarrow> string list" where
  "overlap_loop overlap [] overlap_sentencas overlap_chars = overlap_sentencas"
| "overlap_loop overlap (sent # resto) overlap_sentencas overlap_chars =
     (if int overlap_chars + int (length sent) \<le> overlap
      then overlap_loop overlap resto (sent # overlap_sentencas) (overlap_chars + length sent)
      else overlap_sentencas)"

text \<open>One iteration of \<open>for sentenca in sentencas\<close>.\<close>

definition passo :: "int \<Rightarrow> int \<Rightarrow> estado \<Rightarrow> string \<Rightarrow> estado" where
  "passo tamanho_chunk overlap st sentenca =
     (if int (length (chunk_atual st)) + int (length sentenca) \<le> tamanho_chunk
      then st\<lparr>chunk_atual := chunk_atual st @ sentenca @ [SP],
              sentencas_no_chunk := sentencas_no_chunk st @ [sentenca]\<rparr>
      else
        let st1 = (if strip (chunk_atual st) \<noteq> []
                   then st\<lparr>chunks := chunks st @ [novo_chunk st],
                           indice_chunk := indice_chunk st + 1\<rparr>
                   else st)
        in if 0 < overlap \<and> sentencas_no_chunk st \<noteq> []
           then
             let overlap_sentencas = overlap_loop overlap (rev (sentencas_no_chunk st)) [] 0
             in st1\<lparr>chunk_atual := join [SP] overlap_sentencas @ [SP] @ sentenca @ [SP],
                    sentencas_no_chunk := overlap_sentencas @ [sentenca]\<rparr>
           else st1\<lparr>chunk_atual := sentenca @ [SP], sentencas_no_chunk := [sentenca]\<rparr>)"

text \<open>The chunk list after the loop: the last buffer is emitted if it is not blank.\<close>

definition finalizar :: "estado \<Rightarrow> chunk list" where
  "finalizar st =
     (if strip (chunk_atual st) \<noteq> [] then chunks st @ [novo_chunk st] else chunks st)"

definition agrupar :: "int \<Rightarrow> int \<Rightarrow> string list \<Rightarrow> chunk list" where
  "agrupar tamanho_chunk overlap sentencas =
     finalizar (foldl (passo tamanho_chunk overlap) estado_inicial sentencas)"

definition segmentos :: "ambiente_nlp \<Rightarrow> string \<Rightarrow> bool \<Rightarrow> string list" where
  "segmentos amb txt usar_spacy =
     (if usar_spacy \<and> carregar_spacy amb \<noteq> None
      then segmentar_em_frases_spacy amb txt
      else segmentar_em_paragrafos txt)"

definition criar_chunks :: "ambiente_nlp \<Rightarrow> string \<Rightarrow> int \<Rightarrow> int \<Rightarrow> bool \<Rightarrow> chunk list" where
  "criar_chunks amb txt tamanho_chunk overlap usar_spacy =
     agrupar tamanho_chunk overlap (segmentos amb txt usar_spacy)"


text \<open>The cumulative character count of a list of segments.\<close>

definition somalen :: "string list \<Rightarrow> nat" where
  "somalen ss = sum_list (map length ss)"

text \<open>
  A segment as the segmenters deliver it: not empty, with no whitespace at either end
  (each is the \<open>strip()\<close> of a piece, kept only when that is not empty).
\<close>

definition limpo :: "string \<Rightarrow> bool" where
  "limpo s = (s \<noteq> [] \<and> \<not> isspace (hd s) \<and> \<not> isspace (last s))"

text \<open>
  A segment is covered in a state of the loop when it is a contiguous part of the text of
  an emitted chunk or of the trimmed buffer.
\<close>

definition coberto :: "estado \<Rightarrow> string \<Rightarrow> bool" where
  "coberto st s = ((\<exists>c\<in>set (chunks st). sublist s (texto c)) \<or> sublist s (strip (chunk_atual st)))"

text \<open>
  The text has no two consecutive space characters (U+0020); and the same for horizontal
  whitespace, the space and the tab.
\<close>

definition sem_espacos_duplos :: "string \<Rightarrow> bool" where
  "sem_espacos_duplos s = successively (\<lambda>a b. \<not> (a = SP \<and> b = SP)) s"



section \<open>Exceptions\<close>

text \<open>
  An exception is modelled by its class; a failure of a remote call carries the text of
  the service's message. A function that can raise returns a sum, the exception on the
  left.
\<close>

datatype erro =
    ValueError
  | IndexError
  | ImportError
  | AttributeError
  | ZeroDivisionError
  | ErroServico string

section \<open>Relevance Selector\<close>

text \<open>
  An embedding is a one-dimensional array of floating-point numbers. The coordinates,
  the norms and the similarities are modelled as reals: their rounding, infinities and
  NaN are outside the model. The product that decides how many chunks are selected is
  rounded as the machine does it, see \<open>para_double\<close> below.
\<close>

type_synonym vetor = "real list"

text \<open>\<open>np.linalg.norm\<close> of a one-dimensional array.\<close>

definition norma :: "vetor \<Rightarrow> real" where
  "norma v = sqrt (sum_list (map (\<lambda>x. x * x) v))"

text \<open>The inner product of two arrays of the same length.\<close>

definition produto :: "vetor \<Rightarrow> vetor \<Rightarrow> real" where
  "produto a b = sum_list (map2 (*) a b)"

text \<open>\<open>np.dot\<close> of two one-dimensional arrays raises ValueError when the sizes differ.\<close>

definition np_dot :: "vetor \<Rightarrow> vetor \<Rightarrow> erro + real" where
  "np_dot a b = (if length a = length b then Inr (produto a b) else Inl ValueError)"

text \<open>
  The division of the source. A zero divisor is a branch of its own, so that the absence
  of a division by zero is a statement about the model.
\<close>

definition dividir :: "real \<Rightarrow> real \<Rightarrow> erro + real" where
  "dividir x y = (if y = 0 then Inl ZeroDivisionError else Inr (x / y))"

definition calcular_similaridade_coseno :: "vetor \<Rightarrow> vetor \<Rightarrow> erro + real" where
  "calcular_similaridade_coseno embedding1 embedding2 =
     (let norm1 = norma embedding1;
          norm2 = norma embedding2
      in if norm1 = 0 \<or> norm2 = 0 then Inr 0
         else (case np_dot embedding1 embedding2 of
                 Inl e \<Rightarrow> Inl e
               | Inr d \<Rightarrow> dividir d (norm1 * norm2)))"

text \<open>
  The chunk dictionaries are mutable objects that the lists only refer to, and the
  selector's contract is about which objects it writes. The store is the list of the
  dictionaries allocated so far; an object's address is its position, and an allocation
  appends. A list of chunks is a list of addresses.
\<close>

type_synonym endereco = nat
type_synonym memoria = "chunk list"

text \<open>The entries of \<open>similaridades\<close>; the key \<open>chunk\<close> holds a reference.\<close>

record item =
  indice_original :: nat
  chunk_ref :: endereco
  similaridade_item :: real

text \<open>
  The loop over \<open>enumerate(embeddings_chunks)\<close>, from position \<open>i\<close> on. In each round
  the similarity is computed first (ValueError on a size mismatch), then \<open>chunks[i]\<close> is
  read (IndexError when there are more embeddings than chunks).
\<close>

fun calcular_similaridades ::
  "endereco list \<Rightarrow> vetor \<Rightarrow> nat \<Rightarrow> vetor list \<Rightarrow> erro + item list" where
  "calcular_similaridades cs embedding_global i [] = Inr []"
| "calcular_similaridades cs embedding_global i (embedding_chunk # es) =
     (case calcular_similaridade_coseno embedding_chunk embedding_global of
        Inl e \<Rightarrow> Inl e
      | Inr sim \<Rightarrow>
          if i < length cs
          then (case calcular_similaridades cs embedding_global (Suc i) es of
                  Inl e \<Rightarrow> Inl e
                | Inr resto \<Rightarrow>
                    Inr (\<lparr>indice_original = i, chunk_ref = cs ! i, similaridade_item = sim\<rparr>
                         # resto))
          else Inl IndexError)"

text \<open>
  The selection fraction and the product \<open>len(chunks) * percentual_selecao\<close> are
  double-precision floats, and the product is rounded. A finite double is modelled by
  the real number it stands for, and \<open>para_double x\<close> is the double nearest to \<open>x\<close>: the
  significand has 53 bits, so in the binade from \<open>2^e\<close> to \<open>2^(e+1)\<close> the doubles are the
  multiples of \<open>2^(e-52)\<close>, below the smallest normal number they are the multiples of
  \<open>2^(-1074)\<close>, and a tie goes to the even multiple. Overflow to infinity is outside the
  model: the product of a list length and a fraction of at most 1 is finite.
\<close>

definition dois_elevado :: "int \<Rightarrow> real" where
  "dois_elevado k = (if 0 \<le> k then 2 ^ nat k else 1 / 2 ^ nat (- k))"

definition arredondar_par :: "real \<Rightarrow> int" where
  "arredondar_par y =
     (let n = \<lfloor>y\<rfloor>;
          d = y - of_int n
      in if d < 1 / 2 then n
         else if 1 / 2 < d then n + 1
         else if even n then n else n + 1)"

definition para_double :: "real \<Rightarrow> real" where
  "para_double x =
     (if x = 0 then 0
      else
        let e = \<lfloor>log 2 \<bar>x\<bar>\<rfloor>;
            q = dois_elevado (max (e - 52) (- 1074))
        in of_int (arredondar_par (x / q)) * q)"

text \<open>The product of two doubles is the exact product, rounded.\<close>

definition mult_double :: "real \<Rightarrow> real \<Rightarrow> real" where
  "mult_double x y = para_double (x * y)"

text \<open>\<open>int(x)\<close> of a float truncates towards zero.\<close>

definition py_int :: "real \<Rightarrow> int" where
  "py_int x = (if 0 \<le> x then \<lfloor>x\<rfloor> else \<lceil>x\<rceil>)"

text \<open>
  \<open>max(1, int(len(chunks) * percentual_selecao))\<close>: the length is converted to a double,
  multiplied in double precision and truncated.
\<close>

definition num_selecionar :: "nat \<Rightarrow> real \<Rightarrow> int" where
  "num_selecionar n percentual_selecao =
     max 1 (py_int (mult_double (para_double (real n)) percentual_selecao))"

text \<open>The literal \<open>0.7\<close> of the callers is the double nearest to 7/10.\<close>

definition literal_0_7 :: real where
  "literal_0_7 = para_double (7 / 10)"

text \<open>
  The last loop: each selected entry's dictionary is copied (a new object), the copy gets
  the key \<open>similaridade\<close>, and its reference is appended to \<open>resultado\<close>.
\<close>

fun copiar_com_similaridade :: "memoria \<Rightarrow> item list \<Rightarrow> memoria \<times> endereco list" where
  "copiar_com_similaridade mem [] = (mem, [])"
| "copiar_com_similaridade mem (it # its) =
     (let chunk_com_sim = (mem ! chunk_ref it)\<lparr>similaridade := Some (similaridade_item it)\<rparr>;
          (mem', resultado) = copiar_com_similaridade (mem @ [chunk_com_sim]) its
      in (mem', length mem # resultado))"

text \<open>
  The selector returns the store after the call and either the exception or the list it
  returns. \<open>sorted\<close> is stable, also with \<open>reverse=True\<close>; \<open>sort_key\<close> is a stable
  insertion sort, and sorting by the negated similarity is the stable descending sort.
  The slice \<open>[:num_selecionar]\<close> has a positive bound.
\<close>

definition selecionar_chunks_relevantes ::
  "memoria \<Rightarrow> endereco list \<Rightarrow> vetor list \<Rightarrow> vetor \<Rightarrow> real \<Rightarrow> memoria \<times> (erro + endereco list)" where
  "selecionar_chunks_relevantes mem cs embeddings_chunks embedding_global percentual_selecao =
     (if cs = [] \<or> embeddings_chunks = [] then (mem, Inr cs)
      else
        (case calcular_similaridades cs embedding_global 0 embeddings_chunks of
           Inl e \<Rightarrow> (mem, Inl e)
         | Inr similaridades \<Rightarrow>
             let similaridades_ordenadas = sort_key (\<lambda>x. - similaridade_item x) similaridades;
                 chunks_selecionados =
                   sort_key indice_original
                     (take (nat (num_selecionar (length cs) percentual_selecao))
                        similaridades_ordenadas);
                 (mem', resultado) = copiar_com_similaridade mem chunks_selecionados
             in (mem', Inr resultado)))"

section \<open>Embedding client\<close>

text \<open>The slice \<open>s[:n]\<close>: a negative bound counts from the end.\<close>

definition fatiar_ate :: "string \<Rightarrow> int \<Rightarrow> string" where
  "fatiar_ate s n = (if 0 \<le> n then take (nat n) s else take (length s - nat (- n)) s)"

text \<open>\<open>s.rfind(' ')\<close>: the position of the last space, or -1.\<close>

definition rfind_espaco :: "string \<Rightarrow> int" where
  "rfind_espaco s =
     (if SP \<in> set s
      then int (length s) - 1 - int (length (takeWhile (\<lambda>c. c \<noteq> SP) (rev s)))
      else - 1)"

text \<open>The warning that the function prints is not part of its result.\<close>

definition truncar_texto_para_embedding :: "string \<Rightarrow> int \<Rightarrow> string" where
  "truncar_texto_para_embedding txt max_tokens =
     (let max_chars = max_tokens * 4
      in if int (length txt) \<le> max_chars then txt
         else
           let texto_truncado = fatiar_ate txt max_chars;
               ultimo_espaco = rfind_espaco texto_truncado
           in if 0 < ultimo_espaco then fatiar_ate texto_truncado ultimo_espaco
              else texto_truncado)"

text \<open>
  A result \<open>r\<close> cuts the text inside a word when the characters on both sides of the
  cut are not whitespace.
\<close>

definition corta_palavra :: "string \<Rightarrow> string \<Rightarrow> bool" where
  "corta_palavra txt r =
     (r \<noteq> [] \<and> length r < length txt \<and> \<not> isspace (last r) \<and> \<not> isspace (txt ! length r))"


text \<open>A chunk of one word with a given index, for the examples.\<close>

definition chunk_exemplo :: "nat \<Rightarrow> chunk" where
  "chunk_exemplo i =
     \<lparr>indice = i, texto = ''um'', tamanho = 2, num_palavras = 1, num_sentencas = 1,
      similaridade = None\<rparr>"

section \<open>Statistics Calculator\<close>

text \<open>The dictionary of \<open>calcular_estatisticas\<close>; its key \<open>num_palavras\<close> is \<open>num_palavras_texto\<close> here.\<close>

record estatisticas =
  num_caracteres :: nat
  num_palavras_texto :: nat
  num_frases :: nat
  num_paragrafos :: nat

definition calcular_estatisticas :: "string \<Rightarrow> estatisticas" where
  "calcular_estatisticas s =
     \<lparr>num_caracteres = length s,
      num_palavras_texto = contar_palavras s,
      num_frases = length (segmentar_em_frases s),
      num_paragrafos = length (segmentar_em_paragrafos s)\<rparr>"

definition processar_texto_completo ::
  "ambiente_nlp \<Rightarrow> string \<Rightarrow> real \<Rightarrow> int \<Rightarrow> string \<times> chunk list \<times> estatisticas" where
  "processar_texto_completo amb texto_original percentual_selecao tamanho_chunk =
     (let texto_limpo = limpar_texto texto_original;
          est = calcular_estatisticas texto_limpo;
          cs = criar_chunks amb texto_limpo tamanho_chunk 200 True
      in (texto_limpo, cs, est))"

section \<open>The remote services\<close>

text \<open>
  The answer of the chat service, as far as the client reads it: the \<open>message.content\<close>
  of each choice (which may be missing) and the attribute \<open>usage\<close>, which the answer may
  not have, or have as \<open>None\<close>, or have with its \<open>total_tokens\<close>.
\<close>

datatype uso = SemAtributo | UsoNone | Uso nat

record resposta_chat =
  conteudos :: "string option list"
  usage :: uso

text \<open>
  What the client depends on and does not compute: whether the \<open>openai\<close> library could
  be imported, the environment variable with the key, the two remote calls (an exception
  on the left; for the embeddings the vectors of \<open>resposta.data\<close> in order, a single text
  being sent as a list of one), the draws of \<open>np.random.rand(1536)\<close> by their number in
  the process, and the fixed wording of the prompts and of the test-mode text, which has
  characters outside Latin-1: each f-string is a function of the values it interpolates.
\<close>

record ambiente_openai =
  openai_disponivel :: bool
  api_key :: "string option"
  embeddings_create :: "string list \<Rightarrow> erro + vetor list"
  chat_create :: "string \<Rightarrow> erro + resposta_chat"
  random_rand :: "nat \<Rightarrow> vetor"
  instrucao_curto :: string
  instrucao_medio :: string
  instrucao_longo :: string
  prompt_resumo :: "string \<Rightarrow> string \<Rightarrow> string"
  prompt_simplificacao :: "string \<Rightarrow> string"
  texto_modo_teste :: string

text \<open>The client object itself is opaque; creating it raises without library or key.\<close>

definition inicializar_cliente :: "ambiente_openai \<Rightarrow> erro + unit" where
  "inicializar_cliente env =
     (if \<not> openai_disponivel env then Inl ImportError
      else (case api_key env of
              None \<Rightarrow> Inl ValueError
            | Some k \<Rightarrow> if k = [] then Inl ValueError else Inr ()))"

definition zeros :: vetor where
  "zeros = replicate 1536 0"

text \<open>
  \<open>gerar_embedding\<close> and \<open>gerar_embeddings_batch\<close> take the number of random draws made so
  far and return it updated. Every exception inside their \<open>try\<close> ends in the handler that
  returns zero vectors.
\<close>

definition gerar_embedding :: "ambiente_openai \<Rightarrow> nat \<Rightarrow> string \<Rightarrow> vetor \<times> nat" where
  "gerar_embedding env k s =
     (if \<not> openai_disponivel env then (random_rand env k, Suc k)
      else
        (case inicializar_cliente env of
           Inl e \<Rightarrow> (zeros, k)
         | Inr cliente \<Rightarrow>
             let texto_limpo = strip s
             in if texto_limpo = [] then (zeros, k)
                else
                  (case embeddings_create env [truncar_texto_para_embedding texto_limpo 8000] of
                     Inl e \<Rightarrow> (zeros, k)
                   | Inr dados \<Rightarrow>
                       (case dados of
                          [] \<Rightarrow> (zeros, k)
                        | embedding # _ \<Rightarrow> (embedding, k)))))"

definition gerar_embeddings_batch ::
  "ambiente_openai \<Rightarrow> nat \<Rightarrow> string list \<Rightarrow> vetor list \<times> nat" where
  "gerar_embeddings_batch env k textos =
     (if textos = [] then ([], k)
      else if \<not> openai_disponivel env
      then (map (\<lambda>i. random_rand env (k + i)) [0..<length textos], k + length textos)
      else
        (case inicializar_cliente env of
           Inl e \<Rightarrow> (replicate (length textos) zeros, k)
         | Inr cliente \<Rightarrow>
             let textos_limpos =
                   map (\<lambda>s. let texto_limpo = strip s
                            in if texto_limpo \<noteq> []
                               then truncar_texto_para_embedding texto_limpo 8000
                               else ''texto vazio'') textos
             in if textos_limpos = [] then (replicate (length textos) zeros, k)
                else
                  (case embeddings_create env textos_limpos of
                     Inl e \<Rightarrow> (replicate (length textos) zeros, k)
                   | Inr dados \<Rightarrow> (dados, k))))"

definition gerar_embeddings_para_chunks ::
  "ambiente_openai \<Rightarrow> nat \<Rightarrow> chunk list \<Rightarrow> vetor list \<times> nat" where
  "gerar_embeddings_para_chunks env k cs =
     (if cs = [] then ([], k) else gerar_embeddings_batch env k (map texto cs))"

section \<open>Generation client\<close>

text \<open>
  The loop that both prompt builders share: chunk texts are taken while the running total
  stays within 25000 characters; the first that does not fit is cut to what is left, if
  more than 500 characters are left, and ends the loop.
\<close>

fun montar_trechos :: "string list \<Rightarrow> int \<Rightarrow> string list" where
  "montar_trechos [] total_chars = []"
| "montar_trechos (chunk_texto # resto) total_chars =
     (if 25000 < total_chars + int (length chunk_texto)
      then (let chars_restantes = 25000 - total_chars
            in if 500 < chars_restantes
               then [take (nat chars_restantes) chunk_texto @ ''...'']
               else [])
      else chunk_texto # montar_trechos resto (total_chars + int (length chunk_texto) + 10))"

definition texto_dos_chunks :: "chunk list \<Rightarrow> string" where
  "texto_dos_chunks chunks_sel =
     join [NL, NL, CHR ''-'', CHR ''-'', CHR ''-'', NL, NL] (montar_trechos (map texto chunks_sel) 0)"

definition construir_prompt_resumo ::
  "ambiente_openai \<Rightarrow> string \<Rightarrow> chunk list \<Rightarrow> string \<Rightarrow> string" where
  "construir_prompt_resumo env texto_original chunks_sel tamanho_resumo =
     (let instrucao_tamanho =
            (if tamanho_resumo = ''Curto'' then instrucao_curto env
             else if tamanho_resumo = ''Medio'' then instrucao_medio env
             else if tamanho_resumo = ''Longo'' then instrucao_longo env
             else instrucao_medio env)
      in prompt_resumo env instrucao_tamanho (texto_dos_chunks chunks_sel))"

definition construir_prompt_simplificacao ::
  "ambiente_openai \<Rightarrow> string \<Rightarrow> chunk list \<Rightarrow> string" where
  "construir_prompt_simplificacao env texto_original chunks_sel =
     prompt_simplificacao env (texto_dos_chunks chunks_sel)"

text \<open>
  The error texts: \<open>ErroGeracao e\<close> is "Erro ao gerar texto com o4-mini: " followed by
  \<open>str(e)\<close>, \<open>ErroProcessamento e\<close> is "Erro durante processamento: " followed by
  \<open>str(e)\<close>, and \<open>BibliotecaIndisponivel\<close> is the text of the test mode.
\<close>

datatype mensagem =
    BibliotecaIndisponivel
  | ErroGeracao erro
  | ErroProcessamento erro

text \<open>The dictionary that \<open>gerar_texto_o4_mini\<close> returns.\<close>

record resposta_llm =
  texto_gerado_llm :: string
  sucesso_llm :: bool
  erro_llm :: "mensagem option"
  tokens_usados :: nat

definition falha_llm :: "erro \<Rightarrow> resposta_llm" where
  "falha_llm e =
     \<lparr>texto_gerado_llm = [], sucesso_llm = False, erro_llm = Some (ErroGeracao e),
      tokens_usados = 0\<rparr>"

definition gerar_texto_o4_mini ::
  "ambiente_openai \<Rightarrow> string \<Rightarrow> chunk list \<Rightarrow> string \<Rightarrow> string \<Rightarrow> resposta_llm" where
  "gerar_texto_o4_mini env texto_original chunks_sel tipo_saida tamanho_resumo =
     (if \<not> openai_disponivel env
      then \<lparr>texto_gerado_llm = texto_modo_teste env, sucesso_llm = False,
            erro_llm = Some BibliotecaIndisponivel, tokens_usados = 0\<rparr>
      else
        (case inicializar_cliente env of
           Inl e \<Rightarrow> falha_llm e
         | Inr cliente \<Rightarrow>
             let prompt =
                   (if tipo_saida = ''Resumo''
                    then construir_prompt_resumo env texto_original chunks_sel tamanho_resumo
                    else construir_prompt_simplificacao env texto_original chunks_sel)
             in (case chat_create env prompt of
                   Inl e \<Rightarrow> falha_llm e
                 | Inr resposta \<Rightarrow>
                     (case conteudos resposta of
                        [] \<Rightarrow> falha_llm IndexError
                      | None # _ \<Rightarrow> falha_llm AttributeError
                      | Some conteudo # _ \<Rightarrow>
                          (case usage resposta of
                             UsoNone \<Rightarrow> falha_llm AttributeError
                           | SemAtributo \<Rightarrow>
                               \<lparr>texto_gerado_llm = strip conteudo, sucesso_llm = True,
                                erro_llm = None, tokens_usados = 0\<rparr>
                           | Uso n \<Rightarrow>
                               \<lparr>texto_gerado_llm = strip conteudo, sucesso_llm = True,
                                erro_llm = None, tokens_usados = n\<rparr>)))))"

section \<open>Orchestrator\<close>

record embeddings_info =
  dimensao :: nat
  num_embeddings :: nat

text \<open>
  The dictionary \<open>resultado\<close> of \<open>processar_texto\<close>; its key \<open>chunks\<close> is \<open>chunks_res\<close>
  here. The dictionaries that start empty are optional values.
\<close>

record resultado =
  sucesso :: bool
  texto_gerado :: string
  estatisticas_entrada :: "estatisticas option"
  estatisticas_saida :: "estatisticas option"
  chunks_res :: "chunk list"
  chunks_selecionados :: "chunk list"
  info :: "embeddings_info option"
  erro :: "mensagem option"

text \<open>
  \<open>processar_texto\<close> of the application, without the display calls. The chunk
  dictionaries of the run are the first objects of the store. The only call inside the
  \<open>try\<close> that can raise is the selector; the handler records the exception in the
  dictionary as filled so far.
\<close>

definition processar_texto ::
  "ambiente_nlp \<Rightarrow> ambiente_openai \<Rightarrow> nat \<Rightarrow> string \<Rightarrow> string \<Rightarrow> string \<Rightarrow> bool \<Rightarrow> resultado" where
  "processar_texto amb env k texto_entrada tipo_saida tamanho_resumo mostrar_detalhes =
     (let (texto_limpo, cs, est) = processar_texto_completo amb texto_entrada literal_0_7 500;
          r1 = \<lparr>sucesso = False, texto_gerado = [], estatisticas_entrada = Some est,
                estatisticas_saida = None, chunks_res = cs, chunks_selecionados = [],
                info = None, erro = None\<rparr>;
          (embedding_global, k1) = gerar_embedding env k texto_limpo;
          (embeddings_chunks, k2) = gerar_embeddings_para_chunks env k1 cs;
          r2 = r1\<lparr>info := Some \<lparr>dimensao = length embedding_global,
                                  num_embeddings = length embeddings_chunks + 1\<rparr>\<rparr>
      in (case selecionar_chunks_relevantes cs [0..<length cs] embeddings_chunks
                 embedding_global literal_0_7 of
            (mem, Inl e) \<Rightarrow> r2\<lparr>erro := Some (ErroProcessamento e)\<rparr>
          | (mem, Inr enderecos) \<Rightarrow>
              let selecionados = map (\<lambda>a. mem ! a) enderecos;
                  r3 = r2\<lparr>chunks_selecionados := selecionados\<rparr>;
                  resposta = gerar_texto_o4_mini env texto_limpo selecionados tipo_saida
                               tamanho_resumo
              in if sucesso_llm resposta
                 then r3\<lparr>texto_gerado := texto_gerado_llm resposta, sucesso := True,
                         estatisticas_saida :=
                           Some (calcular_estatisticas (texto_gerado_llm resposta))\<rparr>
                 else r3\<lparr>erro := erro_llm resposta\<rparr>))"

text \<open>
  An environment for the examples: the library and the key are present, every embedding
  request raises, and the chat service answers.
\<close>

definition ambiente_exemplo :: ambiente_openai where
  "ambiente_exemplo =
     \<lparr>openai_disponivel = True,
      api_key = Some ''chave'',
      embeddings_create = (\<lambda>textos. Inl (ErroServico ''Connection error.'')),
      chat_create = (\<lambda>prompt. Inr \<lparr>conteudos = [Some ''Resumo pronto.''], usage = Uso 42\<rparr>),
      random_rand = (\<lambda>n. []),
      instrucao_curto = ''curto'',
      instrucao_medio = ''medio'',
      instrucao_longo = ''longo'',
      prompt_resumo = (\<lambda>instrucao trechos. instrucao @ trechos),
      prompt_simplificacao = (\<lambda>trechos. trechos),
      texto_modo_teste = ''teste''\<rparr>"

section \<open>Properties of the Chunk Builder\<close>

lemma passo_indices:
  assumes "indice_chunk st = length (chunks st)"
    and "map indice (chunks st) = [0..<length (chunks st)]"
  shows "indice_chunk (passo t ov st s) = length (chunks (passo t ov st s)) \<and>
         map indice (chunks (passo t ov st s)) = [0..<length (chunks (passo t ov st s))]"
  using assms by (simp add: passo_def Let_def novo_chunk_def)

lemma foldl_passo_indices:
  assumes "indice_chunk st = length (chunks st)"
    and "map indice (chunks st) = [0..<length (chunks st)]"
  shows "indice_chunk (foldl (passo t ov) st ss) = length (chunks (foldl (passo t ov) st ss)) \<and>
         map indice (chunks (foldl (passo t ov) st ss)) =
           [0..<length (chunks (foldl (passo t ov) st ss))]"
  using assms
proof (induction ss arbitrary: st)
  case Nil
  then show ?case by simp
next
  case (Cons s ss)
  have "indice_chunk (passo t ov st s) = length (chunks (passo t ov st s)) \<and>
        map indice (chunks (passo t ov st s)) = [0..<length (chunks (passo t ov st s))]"
    using Cons.prems by (rule passo_indices)
  then show ?case using Cons.IH [of "passo t ov st s"] by simp
qed

lemma agrupar_indices: "map indice (agrupar t ov ss) = [0..<length (agrupar t ov ss)]"
proof -
  let ?st = "foldl (passo t ov) estado_inicial ss"
  have "indice_chunk ?st = length (chunks ?st) \<and> map indice (chunks ?st) = [0..<length (chunks ?st)]"
    by (rule foldl_passo_indices) (simp_all add: estado_inicial_def)
  then show ?thesis by (simp add: agrupar_def finalizar_def novo_chunk_def)
qed

text \<open>
  Claim C4. Whatever the text, the target size, the overlap and the outcome of the
  segmentation, the chunks that one pass of \<open>criar_chunks\<close> emits carry the indices
  0, 1, 2, ... in order: the i-th chunk of the list has index i.
\<close>

theorem criar_chunks_indices:
  "map indice (criar_chunks amb txt tamanho_chunk overlap usar_spacy) =
     [0..<length (criar_chunks amb txt tamanho_chunk overlap usar_spacy)]"
  by (simp add: criar_chunks_def agrupar_indices)

lemma overlap_loop_spec:
  "\<exists>k\<le>length xs. overlap_loop ov xs acc n = rev (take k xs) @ acc \<and>
      (0 < k \<longrightarrow> int n + int (somalen (take k xs)) \<le> ov) \<and>
      (k < length xs \<longrightarrow> ov < int n + int (somalen (take (Suc k) xs)))"
proof (induction xs arbitrary: acc n)
  case Nil
  then show ?case by simp
next
  case (Cons sent resto)
  show ?case
  proof (cases "int n + int (length sent) \<le> ov")
    case True
    from Cons.IH [of "sent # acc" "n + length sent"]
    obtain k where k: "k \<le> length resto"
      "overlap_loop ov resto (sent # acc) (n + length sent) = rev (take k resto) @ sent # acc"
      "0 < k \<longrightarrow> int (n + length sent) + int (somalen (take k resto)) \<le> ov"
      "k < length resto \<longrightarrow> ov < int (n + length sent) + int (somalen (take (Suc k) resto))"
      by blast
    show ?thesis
    proof (intro exI [of _ "Suc k"] conjI impI)
      show "Suc k \<le> length (sent # resto)" using k(1) by simp
      show "overlap_loop ov (sent # resto) acc n = rev (take (Suc k) (sent # resto)) @ acc"
        using True k(2) by simp
      show "int n + int (somalen (take (Suc k) (sent # resto))) \<le> ov"
        using True k(3) by (cases "k = 0") (simp_all add: somalen_def)
      show "ov < int n + int (somalen (take (Suc (Suc k)) (sent # resto)))"
        if "Suc k < length (sent # resto)"
        using that k(4) by (simp add: somalen_def)
    qed
  next
    case False
    show ?thesis
      by (rule exI [of _ 0]) (use False in \<open>simp add: somalen_def\<close>)
  qed
qed

lemma overlap_loop_cauda:
  assumes "0 < ov"
  shows "\<exists>pre. sents = pre @ overlap_loop ov (rev sents) [] 0 \<and>
           int (somalen (overlap_loop ov (rev sents) [] 0)) \<le> ov \<and>
           (pre \<noteq> [] \<longrightarrow>
              ov < int (length (last pre)) + int (somalen (overlap_loop ov (rev sents) [] 0)))"
proof -
  let ?t = "overlap_loop ov (rev sents) [] 0"
  from overlap_loop_spec [of "rev sents" ov "[]" 0]
  obtain k where k: "k \<le> length sents" "?t = rev (take k (rev sents))"
    "0 < k \<longrightarrow> int (somalen (take k (rev sents))) \<le> ov"
    "k < length sents \<longrightarrow> ov < int (somalen (take (Suc k) (rev sents)))"
    by auto
  have t: "?t = drop (length sents - k) sents"
    using k(1,2) by (simp add: take_rev)
  have sl_rev: "somalen (rev ys) = somalen ys" for ys
    by (simp add: somalen_def rev_map [symmetric] del: rev_map)
  have s1: "somalen (take k (rev sents)) = somalen ?t"
    using k(2) sl_rev [of "take k (rev sents)"] by simp
  let ?pre = "take (length sents - k) sents"
  show ?thesis
  proof (intro exI [of _ ?pre] conjI impI)
    show "sents = ?pre @ ?t" using t by simp
    show "int (somalen ?t) \<le> ov"
    proof (cases "0 < k")
      case True
      then show ?thesis using k(3) s1 by simp
    next
      case False
      then show ?thesis using t assms k(2) by (simp add: somalen_def)
    qed
    show "ov < int (length (last ?pre)) + int (somalen ?t)" if "?pre \<noteq> []"
    proof -
      from that have lt: "k < length sents" by auto
      then have "take (Suc k) (rev sents) = take k (rev sents) @ [rev sents ! k]"
        by (simp add: take_Suc_conv_app_nth)
      moreover have "rev sents ! k = sents ! (length sents - Suc k)"
        using lt by (simp add: rev_nth)
      moreover have "last ?pre = sents ! (length sents - Suc k)"
        using lt that by (simp add: last_conv_nth)
      ultimately have "somalen (take (Suc k) (rev sents)) = somalen ?t + length (last ?pre)"
        using s1 by (simp add: somalen_def)
      then show ?thesis using k(4) lt by simp
    qed
  qed
qed

lemma passo_sentencas_nonempty: "sentencas_no_chunk (passo t ov st s) \<noteq> []"
  by (simp add: passo_def Let_def)

lemma foldl_passo_sentencas:
  "ss \<noteq> [] \<Longrightarrow> sentencas_no_chunk (foldl (passo t ov) st ss) \<noteq> []"
  by (induction ss arbitrary: st rule: rev_induct) (simp_all add: passo_sentencas_nonempty)

lemma strip_Nil [simp]: "strip [] = []"
  by (simp add: strip_def lstrip_def rstrip_def)

text \<open>
  Claim C3. Take the state \<open>st\<close> of the loop before segment \<open>k\<close>, and suppose that
  the segment overflows the target size, that the buffer is emitted as a chunk, and that
  the overlap is positive. Then the segment list of the emitted chunk splits into a front
  part and a retained tail of whole segments: the tail's cumulative length is within the
  overlap, the segment just before the tail (if there is one) would exceed it, and the
  tail is the whole list when the whole list is within the overlap. The new buffer is the
  tail joined by spaces, followed by the overflowing segment.
\<close>

theorem overlap_seeding:
  assumes "k < length sentencas"
    and "st = foldl (passo tamanho_chunk overlap) estado_inicial (take k sentencas)"
    and "tamanho_chunk < int (length (chunk_atual st)) + int (length (sentencas ! k))"
    and "strip (chunk_atual st) \<noteq> []"
    and "0 < overlap"
  shows "\<exists>pre cauda.
           sentencas_no_chunk st = pre @ cauda \<and>
           int (somalen cauda) \<le> overlap \<and>
           (pre \<noteq> [] \<longrightarrow> overlap < int (length (last pre)) + int (somalen cauda)) \<and>
           (int (somalen (sentencas_no_chunk st)) \<le> overlap \<longrightarrow> cauda = sentencas_no_chunk st) \<and>
           chunks (foldl (passo tamanho_chunk overlap) estado_inicial (take (Suc k) sentencas)) =
             chunks st @ [novo_chunk st] \<and>
           sentencas_no_chunk
               (foldl (passo tamanho_chunk overlap) estado_inicial (take (Suc k) sentencas)) =
             cauda @ [sentencas ! k] \<and>
           chunk_atual (foldl (passo tamanho_chunk overlap) estado_inicial (take (Suc k) sentencas)) =
             join [SP] cauda @ [SP] @ sentencas ! k @ [SP]"
proof -
  let ?s = "sentencas ! k"
  let ?t = "overlap_loop overlap (rev (sentencas_no_chunk st)) [] 0"
  have ne: "sentencas_no_chunk st \<noteq> []"
  proof (cases "take k sentencas = []")
    case True
    have "st = estado_inicial" unfolding assms(2) True by simp
    then show ?thesis using assms(4) by (simp add: estado_inicial_def)
  next
    case False
    then show ?thesis using assms(2) foldl_passo_sentencas by simp
  qed
  have step: "foldl (passo tamanho_chunk overlap) estado_inicial (take (Suc k) sentencas) =
      passo tamanho_chunk overlap st ?s"
    using assms(1,2) by (simp add: take_Suc_conv_app_nth)
  from overlap_loop_cauda [OF assms(5), of "sentencas_no_chunk st"]
  obtain pre where pre: "sentencas_no_chunk st = pre @ ?t" "int (somalen ?t) \<le> overlap"
    "pre \<noteq> [] \<longrightarrow> overlap < int (length (last pre)) + int (somalen ?t)"
    by blast
  have all: "int (somalen (sentencas_no_chunk st)) \<le> overlap \<longrightarrow> ?t = sentencas_no_chunk st"
  proof
    assume le: "int (somalen (sentencas_no_chunk st)) \<le> overlap"
    have "pre = []"
    proof (rule ccontr)
      assume pne: "pre \<noteq> []"
      then have "pre = butlast pre @ [last pre]" by simp
      then have "somalen pre = somalen (butlast pre) + length (last pre)"
        by (metis (no_types) somalen_def map_append sum_list_append list.simps(8,9) sum_list.Cons
            sum_list.Nil add.right_neutral)
      moreover have "somalen (sentencas_no_chunk st) = somalen pre + somalen ?t"
        using pre(1) by (metis somalen_def map_append sum_list_append)
      ultimately show False using pre(3) pne le by simp
    qed
    then show "?t = sentencas_no_chunk st" using pre(1) by simp
  qed
  have p: "passo tamanho_chunk overlap st ?s =
      st\<lparr>chunks := chunks st @ [novo_chunk st], indice_chunk := indice_chunk st + 1,
         chunk_atual := join [SP] ?t @ [SP] @ ?s @ [SP],
         sentencas_no_chunk := ?t @ [?s]\<rparr>"
    using assms(3,4,5) ne by (simp add: passo_def Let_def)
  show ?thesis
    apply (rule exI [of _ pre], rule exI [of _ ?t])
    using pre all by (simp add: step p)
qed

theorem overlap_seeding_witness:
  "(2::nat) < length [''ab cd'', ''ef gh'', ''ij''] \<and>
   (12::int) < int (length (chunk_atual (foldl (passo 12 6) estado_inicial
                  (take 2 [''ab cd'', ''ef gh'', ''ij''])))) +
               int (length ([''ab cd'', ''ef gh'', ''ij''] ! 2)) \<and>
   strip (chunk_atual (foldl (passo 12 6) estado_inicial
                  (take 2 [''ab cd'', ''ef gh'', ''ij'']))) \<noteq> [] \<and>
   (0::int) < 6 \<and>
   (\<exists>pre cauda.
      sentencas_no_chunk (foldl (passo 12 6) estado_inicial
                  (take 2 [''ab cd'', ''ef gh'', ''ij''])) = pre @ cauda \<and>
      int (somalen cauda) \<le> 6 \<and>
      (pre \<noteq> [] \<longrightarrow> 6 < int (length (last pre)) + int (somalen cauda)) \<and>
      (int (somalen (sentencas_no_chunk (foldl (passo 12 6) estado_inicial
                  (take 2 [''ab cd'', ''ef gh'', ''ij''])))) \<le> 6 \<longrightarrow>
         cauda = sentencas_no_chunk (foldl (passo 12 6) estado_inicial
                  (take 2 [''ab cd'', ''ef gh'', ''ij'']))) \<and>
      chunks (foldl (passo 12 6) estado_inicial (take (Suc 2) [''ab cd'', ''ef gh'', ''ij''])) =
        chunks (foldl (passo 12 6) estado_inicial (take 2 [''ab cd'', ''ef gh'', ''ij''])) @
        [novo_chunk (foldl (passo 12 6) estado_inicial (take 2 [''ab cd'', ''ef gh'', ''ij'']))] \<and>
      sentencas_no_chunk
          (foldl (passo 12 6) estado_inicial (take (Suc 2) [''ab cd'', ''ef gh'', ''ij''])) =
        cauda @ [[''ab cd'', ''ef gh'', ''ij''] ! 2] \<and>
      chunk_atual (foldl (passo 12 6) estado_inicial (take (Suc 2) [''ab cd'', ''ef gh'', ''ij''])) =
        join [SP] cauda @ [SP] @ [''ab cd'', ''ef gh'', ''ij''] ! 2 @ [SP])"
proof -
  have h1: "(2::nat) < length [''ab cd'', ''ef gh'', ''ij'']" by simp
  have h3: "(12::int) < int (length (chunk_atual (foldl (passo 12 6) estado_inicial
                  (take 2 [''ab cd'', ''ef gh'', ''ij''])))) +
               int (length ([''ab cd'', ''ef gh'', ''ij''] ! 2))" by code_simp
  have h4: "strip (chunk_atual (foldl (passo 12 6) estado_inicial
                  (take 2 [''ab cd'', ''ef gh'', ''ij'']))) \<noteq> []" by code_simp
  have h5: "(0::int) < 6" by simp
  from overlap_seeding [OF h1 refl h3 h4 h5] h1 h3 h4 h5 show ?thesis by blast
qed

lemma strip_prefix_lstrip: "prefix (strip a) (lstrip a)"
proof -
  have "prefix (rev (dropWhile P (rev b))) b" for P and b :: string
  proof -
    have "rev b = takeWhile P (rev b) @ dropWhile P (rev b)" by simp
    then have "b = rev (dropWhile P (rev b)) @ rev (takeWhile P (rev b))"
      by (metis rev_append rev_rev_ident)
    then show ?thesis by (metis prefixI)
  qed
  then show ?thesis by (simp add: strip_def rstrip_def)
qed

lemma strip_append_seg:
  assumes "s \<noteq> []" "\<not> isspace (hd s)" "\<not> isspace (last s)"
  shows "strip (a @ s @ [SP]) = lstrip a @ s"
proof -
  have sp: "isspace SP" by (simp add: isspace_def)
  have l: "lstrip (a @ s @ [SP]) = lstrip a @ s @ [SP]"
  proof (cases "\<forall>x\<in>set a. isspace x")
    case True
    moreover have "dropWhile isspace (s @ [SP]) = s @ [SP]"
      using assms(1,2) by (cases s) simp_all
    ultimately show ?thesis by (simp add: lstrip_def dropWhile_append)
  next
    case False
    then show ?thesis by (auto simp: lstrip_def dropWhile_append)
  qed
  have "dropWhile isspace (rev s @ rev (lstrip a)) = rev s @ rev (lstrip a)"
    using assms(1,3) by (cases "rev s") (simp_all add: last_rev hd_rev)
  then have "rstrip (lstrip a @ s @ [SP]) = lstrip a @ s"
    using sp by (simp add: rstrip_def)
  then show ?thesis by (simp add: strip_def l)
qed

lemma strip_hd_last:
  assumes "strip x \<noteq> []"
  shows "\<not> isspace (hd (strip x)) \<and> \<not> isspace (last (strip x))"
proof -
  let ?b = "lstrip x"
  have bne: "?b \<noteq> []" using assms by (auto simp: strip_def rstrip_def)
  have hb: "\<not> isspace (hd ?b)" using bne unfolding lstrip_def by (rule hd_dropWhile)
  have "prefix (strip x) ?b" by (rule strip_prefix_lstrip)
  then have "hd (strip x) = hd ?b" using assms by (auto simp: prefix_def)
  moreover have "\<not> isspace (last (strip x))"
  proof -
    have ne: "dropWhile isspace (rev ?b) \<noteq> []" using assms by (simp add: strip_def rstrip_def)
    then have "\<not> isspace (hd (dropWhile isspace (rev ?b)))" by (rule hd_dropWhile)
    then show ?thesis using ne by (simp add: strip_def rstrip_def last_rev)
  qed
  ultimately show ?thesis using hb by simp
qed

lemma passo_coberto_novo:
  assumes "limpo s"
  shows "coberto (passo t ov st s) s"
proof -
  have a: "sublist s (strip (a @ s @ [SP]))" for a
    using assms strip_append_seg [of s a] by (simp add: limpo_def)
  have b: "sublist s (strip (s @ [SP]))"
    using a [of "[]"] by simp
  have c: "sublist s (strip (a @ SP # s @ [SP]))" for a
    using a [of "a @ [SP]"] by simp
  show ?thesis
    using a b c by (auto simp: coberto_def passo_def Let_def)
qed

lemma passo_coberto_antigo:
  assumes "limpo s" "x \<noteq> []" "coberto st x"
  shows "coberto (passo t ov st s) x"
proof (cases "int (length (chunk_atual st)) + int (length s) \<le> t")
  case True
  have "sublist x (strip (chunk_atual st @ s @ [SP]))" if "sublist x (strip (chunk_atual st))"
  proof -
    have "sublist x (lstrip (chunk_atual st))"
      using that strip_prefix_lstrip [of "chunk_atual st"]
      by (meson prefix_imp_sublist sublist_order.order.trans)
    then have "sublist x (lstrip (chunk_atual st) @ s)"
      by (meson sublist_append_rightI sublist_order.order.trans)
    then show ?thesis using assms(1) strip_append_seg [of s "chunk_atual st"]
      by (simp add: limpo_def)
  qed
  then show ?thesis using True assms(3) by (auto simp: coberto_def passo_def)
next
  case False
  have "\<exists>c\<in>set (chunks (passo t ov st s)). sublist x (texto c)"
  proof (cases "\<exists>c\<in>set (chunks st). sublist x (texto c)")
    case True
    then show ?thesis using False by (auto simp: passo_def Let_def)
  next
    case nc: False
    then have sl: "sublist x (strip (chunk_atual st))" using assms(3) by (simp add: coberto_def)
    then have "strip (chunk_atual st) \<noteq> []" using assms(2) by auto
    then show ?thesis using False sl by (auto simp: passo_def Let_def novo_chunk_def)
  qed
  then show ?thesis by (simp add: coberto_def)
qed

lemma foldl_passo_coberto:
  assumes "\<forall>s\<in>set ss. limpo s"
  shows "\<forall>s\<in>set ss. coberto (foldl (passo t ov) st ss) s"
  using assms
proof (induction ss rule: rev_induct)
  case Nil
  then show ?case by simp
next
  case (snoc s ss)
  have l: "limpo s" using snoc.prems by simp
  have "\<forall>x\<in>set ss. coberto (foldl (passo t ov) st ss) x" using snoc by simp
  then have "\<forall>x\<in>set ss. coberto (passo t ov (foldl (passo t ov) st ss) s) x"
    using snoc.prems l passo_coberto_antigo by (auto simp: limpo_def)
  then show ?case using passo_coberto_novo [OF l] by simp
qed

lemma agrupar_cobre:
  assumes "\<forall>s\<in>set ss. limpo s"
  shows "\<forall>s\<in>set ss. \<exists>c\<in>set (agrupar t ov ss). sublist s (texto c)"
proof
  fix s assume s: "s \<in> set ss"
  let ?st = "foldl (passo t ov) estado_inicial ss"
  have c: "coberto ?st s" using foldl_passo_coberto [OF assms] s by blast
  have ne: "s \<noteq> []" using assms s by (auto simp: limpo_def)
  show "\<exists>c\<in>set (agrupar t ov ss). sublist s (texto c)"
  proof (cases "\<exists>c\<in>set (chunks ?st). sublist s (texto c)")
    case True
    then show ?thesis by (auto simp: agrupar_def finalizar_def)
  next
    case False
    then have sl: "sublist s (strip (chunk_atual ?st))" using c by (simp add: coberto_def)
    then have "strip (chunk_atual ?st) \<noteq> []" using ne by auto
    then show ?thesis using sl by (auto simp: agrupar_def finalizar_def novo_chunk_def)
  qed
qed

lemma segmentos_limpos: "\<forall>s\<in>set (segmentos amb txt usar). limpo s"
  by (auto simp: segmentos_def segmentar_em_frases_spacy_def segmentar_em_paragrafos_def
      segmentar_em_frases_def limpo_def strip_hd_last split: option.splits)

text \<open>
  Claim C10. Every segment that the segmentation step produces occurs, whole, as a
  contiguous part of the text of at least one emitted chunk: no segment is dropped.
  It holds for every target size and overlap and for both segmentation outcomes.
\<close>

theorem criar_chunks_cobre_segmentos:
  "\<forall>s\<in>set (segmentos amb txt usar_spacy).
     \<exists>c\<in>set (criar_chunks amb txt tamanho_chunk overlap usar_spacy). sublist s (texto c)"
  unfolding criar_chunks_def by (rule agrupar_cobre) (rule segmentos_limpos)

theorem criar_chunks_cobre_segmentos_witness:
  "''ef gh'' \<in> set (segmentos \<lparr>spacy = None\<rparr> ''ab cd\<newline>\<newline>ef gh\<newline>\<newline>ij'' True) \<and>
   (\<exists>c\<in>set (criar_chunks \<lparr>spacy = None\<rparr> ''ab cd\<newline>\<newline>ef gh\<newline>\<newline>ij'' 12 6 True).
      sublist ''ef gh'' (texto c))"
proof -
  have m: "''ef gh'' \<in> set (segmentos \<lparr>spacy = None\<rparr> ''ab cd\<newline>\<newline>ef gh\<newline>\<newline>ij'' True)"
    by code_simp
  from criar_chunks_cobre_segmentos [of "\<lparr>spacy = None\<rparr>" "''ab cd\<newline>\<newline>ef gh\<newline>\<newline>ij''" True 12 6] m
  show ?thesis by blast
qed

section \<open>Properties of the Text Normalizer\<close>

text \<open>
  Claim C7 (idempotence) against the code: the control characters are removed after the
  runs of spaces were collapsed, so a control character between two spaces leaves two
  consecutive spaces in the output, and a second application collapses them. On the text
  a, space, U+0001, space, b the first application gives a, space, space, b and the
  second gives a, space, b.
\<close>

theorem limpar_texto_nao_idempotente:
  "limpar_texto [CHR ''a'', SP, CHR 0x01, SP, CHR ''b''] = [CHR ''a'', SP, SP, CHR ''b''] \<and>
   limpar_texto (limpar_texto [CHR ''a'', SP, CHR 0x01, SP, CHR ''b'']) = [CHR ''a'', SP, CHR ''b''] \<and>
   \<not> sem_espacos_duplos (limpar_texto [CHR ''a'', SP, CHR 0x01, SP, CHR ''b''])"
  by code_simp
















section \<open>Properties of the double-precision product\<close>

lemma dois_elevado_pos: "0 < dois_elevado k"
  by (simp add: dois_elevado_def)

lemma dois_elevado_powr: "dois_elevado k = 2 powr of_int k"
  by (simp add: dois_elevado_def powr_int)

lemma para_double_faixa:
  assumes "dois_elevado e \<le> \<bar>x\<bar>" and "\<bar>x\<bar> < dois_elevado (e + 1)"
  shows "para_double x =
           of_int (arredondar_par (x / dois_elevado (max (e - 52) (- 1074)))) *
           dois_elevado (max (e - 52) (- 1074))"
proof -
  have pos: "0 < \<bar>x\<bar>" using assms(1) dois_elevado_pos [of e] by linarith
  then have nz: "x \<noteq> 0" by simp
  have "\<lfloor>log 2 \<bar>x\<bar>\<rfloor> = e"
    using assms pos by (simp add: floor_log_eq_powr_iff dois_elevado_powr)
  then show ?thesis using nz by (simp add: para_double_def Let_def)
qed

lemma literal_0_7_val: "literal_0_7 = 3152519739159347 / 4503599627370496"
  unfolding literal_0_7_def
  by (subst para_double_faixa [of "- 1"])
     (simp_all add: dois_elevado_def arredondar_par_def Let_def)

lemma para_double_10: "para_double (real 10) = 10"
  by (subst para_double_faixa [of 3])
     (simp_all add: dois_elevado_def arredondar_par_def Let_def)

lemma num_selecionar_10: "num_selecionar 10 literal_0_7 = 7"
  unfolding num_selecionar_def mult_double_def para_double_10 literal_0_7_val
  by (subst para_double_faixa [of 2])
     (simp_all add: dois_elevado_def arredondar_par_def Let_def py_int_def)

lemma arredondar_par_int: "arredondar_par (of_int m) = m"
  by (simp add: arredondar_par_def)

lemma arredondar_par_le:
  assumes "y \<le> of_int m"
  shows "arredondar_par y \<le> m"
proof (cases "y = of_int m")
  case True
  then show ?thesis by (simp add: arredondar_par_int)
next
  case False
  then have "y < of_int m" using assms by simp
  then have "\<lfloor>y\<rfloor> < m" by (simp add: floor_less_iff)
  then show ?thesis by (simp add: arredondar_par_def Let_def)
qed

lemma dois_elevado_neg: "k \<le> 0 \<Longrightarrow> dois_elevado k = 1 / 2 ^ nat (- k)"
  by (cases "k = 0") (simp_all add: dois_elevado_def)

lemma expoente_limite:
  assumes "0 < x" and "x < 2 ^ 53"
  shows "\<lfloor>log 2 x\<rfloor> \<le> 52"
proof -
  have "log 2 x < 53"
    using assms by (subst less_powr_iff [symmetric]) simp_all
  then have "\<lfloor>log 2 x\<rfloor> < 53" by (simp add: floor_less_iff)
  then show ?thesis by simp
qed

lemma para_double_le_int:
  assumes "0 < x" and "x \<le> of_int m" and "m < 2 ^ 53"
  shows "para_double x \<le> of_int m"
proof -
  define k where "k = max (\<lfloor>log 2 \<bar>x\<bar>\<rfloor> - 52) (- 1074)"
  have "(of_int m :: real) < 2 ^ 53" using assms(3) by simp
  then have "x < 2 ^ 53" using assms(2) by linarith
  then have "\<lfloor>log 2 \<bar>x\<bar>\<rfloor> \<le> 52" using assms(1) expoente_limite [of x] by simp
  then have k0: "k \<le> 0" by (simp add: k_def)
  define P :: int where "P = 2 ^ nat (- k)"
  have q: "dois_elevado k = 1 / of_int P" using dois_elevado_neg [OF k0] by (simp add: P_def)
  have Ppos: "0 < P" by (simp add: P_def)
  have "x / dois_elevado k = x * of_int P" by (simp add: q)
  also have "\<dots> \<le> of_int m * of_int P" using assms(2) Ppos by (simp add: mult_right_mono)
  finally have "x / dois_elevado k \<le> of_int (m * P)" by simp
  then have "arredondar_par (x / dois_elevado k) \<le> m * P" by (rule arredondar_par_le)
  then have "(of_int (arredondar_par (x / dois_elevado k)) :: real) \<le> of_int (m * P)"
    by (simp only: of_int_le_iff)
  then have "of_int (arredondar_par (x / dois_elevado k)) * dois_elevado k \<le>
             of_int (m * P) * dois_elevado k"
    using dois_elevado_pos [of k] by (simp add: mult_right_mono)
  also have "of_int (m * P) * dois_elevado k = of_int m" using Ppos by (simp add: q)
  finally show ?thesis using assms(1) by (simp add: para_double_def Let_def k_def)
qed

lemma para_double_nat:
  assumes "N < 2 ^ 53"
  shows "para_double (real N) = real N"
proof (cases "N = 0")
  case True
  then show ?thesis by (simp add: para_double_def)
next
  case False
  then have pos: "0 < real N" by simp
  define k where "k = max (\<lfloor>log 2 \<bar>real N\<bar>\<rfloor> - 52) (- 1074)"
  have "real N < 2 ^ 53" using assms by simp
  then have "\<lfloor>log 2 \<bar>real N\<bar>\<rfloor> \<le> 52" using pos expoente_limite [of "real N"] by simp
  then have k0: "k \<le> 0" by (simp add: k_def)
  define P :: int where "P = 2 ^ nat (- k)"
  have q: "dois_elevado k = 1 / of_int P" using dois_elevado_neg [OF k0] by (simp add: P_def)
  have Ppos: "0 < P" by (simp add: P_def)
  have "real N / dois_elevado k = of_int (int N * P)" by (simp add: q)
  then have "arredondar_par (real N / dois_elevado k) = int N * P"
    by (simp only: arredondar_par_int)
  then have "of_int (arredondar_par (real N / dois_elevado k)) * dois_elevado k = real N"
    using Ppos by (simp add: q)
  then show ?thesis using False by (simp add: para_double_def Let_def k_def)
qed

lemma py_int_le: "y \<le> of_int m \<Longrightarrow> py_int y \<le> m"
  by (simp add: py_int_def floor_le_iff ceiling_le_iff)

lemma num_selecionar_limite:
  assumes "1 \<le> N" and "N < 2 ^ 53" and "0 < f" and "f \<le> 1"
  shows "num_selecionar N f = max 1 (py_int (mult_double (real N) f))"
    and "nat (num_selecionar N f) \<le> N"
proof -
  show eq: "num_selecionar N f = max 1 (py_int (mult_double (real N) f))"
    by (simp add: num_selecionar_def para_double_nat [OF assms(2)])
  have pos: "0 < real N * f" using assms(1,3) by simp
  have le: "real N * f \<le> of_int (int N)" using assms(3,4) by (simp add: mult_left_le)
  have "int N < 2 ^ 53" using assms(2) by simp
  with pos le have "para_double (real N * f) \<le> of_int (int N)" by (rule para_double_le_int)
  then have "py_int (mult_double (real N) f) \<le> int N"
    unfolding mult_double_def by (rule py_int_le)
  then show "nat (num_selecionar N f) \<le> N" using assms(1) by (simp add: eq)
qed

section \<open>Properties of the Relevance Selector\<close>

lemma norma_zero_iff: "norma v = 0 \<longleftrightarrow> (\<forall>x\<in>set v. x = 0)"
proof -
  have nn: "0 \<le> sum_list (map (\<lambda>x. x * x) w)" for w :: "real list"
    by (induction w) auto
  have "sum_list (map (\<lambda>x. x * x) v) = 0 \<longleftrightarrow> (\<forall>x\<in>set v. x = 0)"
  proof (induction v)
    case Nil
    then show ?case by simp
  next
    case (Cons y ys)
    have "y * y + sum_list (map (\<lambda>x. x * x) ys) = 0 \<longleftrightarrow>
          y * y = 0 \<and> sum_list (map (\<lambda>x. x * x) ys) = 0"
      by (rule add_nonneg_eq_0_iff) (simp_all add: nn)
    then show ?case using Cons.IH by simp
  qed
  then show ?thesis by (simp add: norma_def)
qed

text \<open>
  Claim C8. When either vector has zero norm (in particular when it is a zero vector),
  \<open>calcular_similaridade_coseno\<close> returns 0 without reaching the division; otherwise,
  for two vectors of one dimension, it returns the inner product divided by the product
  of the norms. On no input does it divide by zero.
\<close>

theorem similaridade_coseno_spec:
  "(norma a = 0 \<or> norma b = 0 \<longrightarrow> calcular_similaridade_coseno a b = Inr 0) \<and>
   ((\<forall>x\<in>set a. x = 0) \<or> (\<forall>x\<in>set b. x = 0) \<longrightarrow> calcular_similaridade_coseno a b = Inr 0) \<and>
   (norma a \<noteq> 0 \<and> norma b \<noteq> 0 \<and> length a = length b \<longrightarrow>
      calcular_similaridade_coseno a b = Inr (produto a b / (norma a * norma b))) \<and>
   calcular_similaridade_coseno a b \<noteq> Inl ZeroDivisionError"
  by (auto simp: calcular_similaridade_coseno_def Let_def np_dot_def dividir_def norma_zero_iff)

lemma norma_um: "norma [x] = \<bar>x\<bar>"
  by (simp add: norma_def)

theorem similaridade_coseno_spec_witness:
  "(norma [0, 0] = 0 \<or> norma [3, 4] = 0) \<and> calcular_similaridade_coseno [0, 0] [3, 4] = Inr 0 \<and>
   (norma [2] \<noteq> 0 \<and> norma [-3] \<noteq> 0 \<and> length [2::real] = length [-3::real]) \<and>
   calcular_similaridade_coseno [2] [-3] = Inr (produto [2] [-3] / (norma [2] * norma [-3])) \<and>
   calcular_similaridade_coseno [2] [-3] = Inr (- 1)"
proof -
  have z: "norma [0, 0] = 0 \<or> norma [3, 4] = 0" by (simp add: norma_def)
  have n: "norma [2] \<noteq> 0 \<and> norma [-3] \<noteq> 0 \<and> length [2::real] = length [-3::real]"
    by (simp add: norma_um)
  have v: "produto [2] [-3] / (norma [2] * norma [-3]) = - 1"
    by (simp add: norma_um produto_def)
  from similaridade_coseno_spec [of "[0, 0]" "[3, 4]"] similaridade_coseno_spec [of "[2]" "[-3]"] z n v
  show ?thesis by simp
qed

lemma coseno_Inr:
  assumes "length a = length b"
  shows "\<exists>s. calcular_similaridade_coseno a b = Inr s"
  using assms by (simp add: calcular_similaridade_coseno_def Let_def np_dot_def dividir_def)

lemma calcular_similaridades_refs:
  "calcular_similaridades cs g i es = Inr its \<Longrightarrow>
     length its = length es \<and> (\<forall>it\<in>set its. chunk_ref it \<in> set cs)"
proof (induction es arbitrary: i its)
  case Nil
  then show ?case by simp
next
  case (Cons e es)
  from Cons.prems obtain s resto where
    r: "i < length cs" "calcular_similaridades cs g (Suc i) es = Inr resto"
       "its = \<lparr>indice_original = i, chunk_ref = cs ! i, similaridade_item = s\<rparr> # resto"
    by (auto split: sum.splits if_splits)
  from Cons.IH [OF r(2)] r(1,3) show ?case by simp
qed

lemma calcular_similaridades_ok:
  assumes "\<forall>e\<in>set es. length e = length g" and "i + length es \<le> length cs"
  shows "\<exists>its. calcular_similaridades cs g i es = Inr its \<and>
           map indice_original its = [i..<i + length es] \<and>
           (\<forall>it\<in>set its. chunk_ref it = cs ! indice_original it)"
  using assms
proof (induction es arbitrary: i)
  case Nil
  then show ?case by simp
next
  case (Cons e es)
  from Cons.prems(1) coseno_Inr [of e g] obtain s where
    s: "calcular_similaridade_coseno e g = Inr s" by auto
  have i: "i < length cs" using Cons.prems(2) by simp
  from Cons.IH [of "Suc i"] Cons.prems obtain resto where
    r: "calcular_similaridades cs g (Suc i) es = Inr resto"
       "map indice_original resto = [Suc i..<Suc i + length es]"
       "\<forall>it\<in>set resto. chunk_ref it = cs ! indice_original it"
    by auto
  have "[i..<i + length (e # es)] = i # [Suc i..<Suc i + length es]"
    by (subst upt_rec) simp
  then show ?case using s i r by simp
qed

lemma copiar_prefix: "prefix mem (fst (copiar_com_similaridade mem its))"
proof (induction its arbitrary: mem)
  case Nil
  then show ?case by simp
next
  case (Cons it its)
  let ?novo = "(mem ! chunk_ref it)\<lparr>similaridade := Some (similaridade_item it)\<rparr>"
  have "prefix (mem @ [?novo]) (fst (copiar_com_similaridade (mem @ [?novo]) its))"
    by (rule Cons.IH)
  then have "prefix mem (fst (copiar_com_similaridade (mem @ [?novo]) its))"
    by (rule append_prefixD)
  then show ?case by (simp add: Let_def case_prod_beta)
qed

lemma copiar_spec:
  assumes "\<forall>it\<in>set its. chunk_ref it < length mem"
  shows "copiar_com_similaridade mem its =
           (mem @ map (\<lambda>it. (mem ! chunk_ref it)\<lparr>similaridade := Some (similaridade_item it)\<rparr>) its,
            [length mem..<length mem + length its])"
  using assms
proof (induction its arbitrary: mem)
  case Nil
  then show ?case by simp
next
  case (Cons it its)
  let ?novo = "(mem ! chunk_ref it)\<lparr>similaridade := Some (similaridade_item it)\<rparr>"
  let ?mem1 = "mem @ [?novo]"
  have wf1: "\<forall>x\<in>set its. chunk_ref x < length ?mem1" using Cons.prems by auto
  have same: "map (\<lambda>x. (?mem1 ! chunk_ref x)\<lparr>similaridade := Some (similaridade_item x)\<rparr>) its =
              map (\<lambda>x. (mem ! chunk_ref x)\<lparr>similaridade := Some (similaridade_item x)\<rparr>) its"
    using Cons.prems by (intro map_cong refl) (simp add: nth_append)
  have "[length mem..<length mem + length (it # its)] =
        length mem # [length ?mem1..<length ?mem1 + length its]"
    by (subst upt_rec) simp
  then show ?case using Cons.IH [OF wf1] same by simp
qed

lemma map_nth_novos:
  "map (\<lambda>r. f ((xs @ ys) ! r)) [length xs..<length xs + length ys] = map f ys"
  by (rule nth_equalityI) (simp_all add: nth_append)

lemma num_selecionar_3: "num_selecionar (Suc (Suc (Suc 0))) (3 / 4) = 2"
proof -
  have a: "para_double 3 = 3"
    by (subst para_double_faixa [of 1])
       (simp_all add: dois_elevado_def arredondar_par_def Let_def)
  have b: "para_double (9 / 4) = 9 / 4"
    by (subst para_double_faixa [of 1])
       (simp_all add: dois_elevado_def arredondar_par_def Let_def)
  show ?thesis by (simp add: num_selecionar_def mult_double_def a b py_int_def)
qed

lemma num_selecionar_10_suc:
  "num_selecionar (Suc (Suc (Suc (Suc (Suc (Suc (Suc (Suc (Suc (Suc 0)))))))))) literal_0_7 = 7"
proof -
  have "Suc (Suc (Suc (Suc (Suc (Suc (Suc (Suc (Suc (Suc 0))))))))) = 10" by simp
  then show ?thesis by (simp only: num_selecionar_10)
qed

lemma exemplo_selecao:
  "selecionar_chunks_relevantes [chunk_exemplo 0, chunk_exemplo 1, chunk_exemplo 2] [0, 1, 2]
      [[1], [- 1], [2]] [1] (3 / 4) =
   ([chunk_exemplo 0, chunk_exemplo 1, chunk_exemplo 2,
     (chunk_exemplo 0)\<lparr>similaridade := Some 1\<rparr>, (chunk_exemplo 2)\<lparr>similaridade := Some 1\<rparr>],
    Inr [3, 4])"
  by (simp add: selecionar_chunks_relevantes_def calcular_similaridade_coseno_def norma_um
      np_dot_def produto_def dividir_def num_selecionar_3 Let_def)

lemma exemplo_selecao_dez:
  "selecionar_chunks_relevantes
      [chunk_exemplo 0, chunk_exemplo 1, chunk_exemplo 2, chunk_exemplo 3, chunk_exemplo 4,
       chunk_exemplo 5, chunk_exemplo 6, chunk_exemplo 7, chunk_exemplo 8, chunk_exemplo 9]
      [0, 1, 2, 3, 4, 5, 6, 7, 8, 9]
      [[1], [1], [1], [1], [1], [1], [1], [1], [1], [1]] [1] literal_0_7 =
   ([chunk_exemplo 0, chunk_exemplo 1, chunk_exemplo 2, chunk_exemplo 3, chunk_exemplo 4,
     chunk_exemplo 5, chunk_exemplo 6, chunk_exemplo 7, chunk_exemplo 8, chunk_exemplo 9,
     (chunk_exemplo 0)\<lparr>similaridade := Some 1\<rparr>, (chunk_exemplo 1)\<lparr>similaridade := Some 1\<rparr>,
     (chunk_exemplo 2)\<lparr>similaridade := Some 1\<rparr>, (chunk_exemplo 3)\<lparr>similaridade := Some 1\<rparr>,
     (chunk_exemplo 4)\<lparr>similaridade := Some 1\<rparr>, (chunk_exemplo 5)\<lparr>similaridade := Some 1\<rparr>,
     (chunk_exemplo 6)\<lparr>similaridade := Some 1\<rparr>],
    Inr [10, 11, 12, 13, 14, 15, 16])"
  by (simp add: selecionar_chunks_relevantes_def calcular_similaridade_coseno_def norma_um
      np_dot_def produto_def dividir_def num_selecionar_10_suc Let_def)

text \<open>
  Claim C2 as stated fails twice. The count is taken from the double-precision product,
  which is rounded: with 10 chunks and the fraction 0.7 of the callers (the double
  3152519739159347 / 2^52, just below 7/10) the product rounds to 7.0 and 7 chunks are
  returned, while max(1, floor(N * f)) is 6. And a global embedding whose dimension
  differs from that of a chunk embedding makes \<open>np.dot\<close> raise ValueError, so that
  nothing is returned.
\<close>

theorem selecionar_produto_arredondado:
  "literal_0_7 = 3152519739159347 / 4503599627370496 \<and>
   snd (selecionar_chunks_relevantes
      [chunk_exemplo 0, chunk_exemplo 1, chunk_exemplo 2, chunk_exemplo 3, chunk_exemplo 4,
       chunk_exemplo 5, chunk_exemplo 6, chunk_exemplo 7, chunk_exemplo 8, chunk_exemplo 9]
      [0, 1, 2, 3, 4, 5, 6, 7, 8, 9]
      [[1], [1], [1], [1], [1], [1], [1], [1], [1], [1]] [1] literal_0_7) =
     Inr [10, 11, 12, 13, 14, 15, 16] \<and>
   max 1 (nat \<lfloor>real 10 * literal_0_7\<rfloor>) = 6 \<and>
   selecionar_chunks_relevantes [chunk_exemplo 0] [0] [[1, 0]] [1] (3 / 4) =
     ([chunk_exemplo 0], Inl ValueError)"
proof -
  have a: "max 1 (nat \<lfloor>real 10 * literal_0_7\<rfloor>) = 6"
    by (simp add: literal_0_7_val)
  have b: "selecionar_chunks_relevantes [chunk_exemplo 0] [0] [[1, 0]] [1] (3 / 4) =
      ([chunk_exemplo 0], Inl ValueError)"
    by (simp add: selecionar_chunks_relevantes_def calcular_similaridade_coseno_def norma_um
        norma_def np_dot_def)
  show ?thesis
    by (intro conjI literal_0_7_val a b) (subst exemplo_selecao_dez, rule snd_conv)
qed

text \<open>
  Claim C2, as amended. Take N chunks, N at least 1, whose \<open>indice\<close> fields are their
  positions in the list, N embeddings aligned with them, a global embedding of the same
  dimension as each of them and a fraction f with 0 < f and f at most 1. Then
  \<open>selecionar_chunks_relevantes\<close> returns normally; it returns \<open>num_selecionar\<close> chunks,
  that is max(1, int(N * f)) with the product taken in double precision, or all N if that
  is more; for fewer than 2^53 chunks it is never more, and N is its own double; and the
  \<open>indice\<close> fields of the returned chunks are strictly ascending.
\<close>

theorem selecionar_conta_e_ordem:
  assumes "length cs = N" and "1 \<le> N" and "length es = N"
    and "\<forall>e\<in>set es. length e = length g"
    and "0 < f" and "f \<le> 1"
    and "\<forall>i<N. cs ! i < length mem \<and> indice (mem ! (cs ! i)) = i"
  shows "\<exists>mem' rs. selecionar_chunks_relevantes mem cs es g f = (mem', Inr rs) \<and>
           length rs = min N (nat (num_selecionar N f)) \<and>
           (N < 2 ^ 53 \<longrightarrow> length rs = nat (max 1 (py_int (mult_double (real N) f)))) \<and>
           sorted_wrt (<) (map (\<lambda>r. indice (mem' ! r)) rs)"
proof -
  from calcular_similaridades_ok [of es g 0 cs] assms(1,3,4) obtain its where
    its: "calcular_similaridades cs g 0 es = Inr its"
      "map indice_original its = [0..<N]"
      "\<forall>it\<in>set its. chunk_ref it = cs ! indice_original it"
    by auto
  define n where "n = nat (num_selecionar (length cs) f)"
  define ord where "ord = sort_key (\<lambda>x. - similaridade_item x) its"
  define sel where "sel = sort_key indice_original (take n ord)"
  define novo :: "item \<Rightarrow> chunk" where
    "novo = (\<lambda>it. (mem ! chunk_ref it)\<lparr>similaridade := Some (similaridade_item it)\<rparr>)"
  have len_its: "length its = N"
    using arg_cong [OF its(2), of length] by simp
  have n_val: "n = nat (num_selecionar N f)" by (simp add: n_def assms(1))
  have len_sel: "length sel = min N n"
    using len_its by (simp add: sel_def ord_def min.commute)
  have small: "length sel = nat (max 1 (py_int (mult_double (real N) f)))" if "N < 2 ^ 53"
    using num_selecionar_limite [OF assms(2) that assms(5,6)] len_sel n_val by simp
  have sub: "set sel \<subseteq> set its"
    using set_take_subset [of n ord] by (simp add: sel_def ord_def)
  have io: "indice_original it < N" if "it \<in> set its" for it
  proof -
    have "indice_original it \<in> set (map indice_original its)" using that by simp
    then show ?thesis by (simp add: its(2))
  qed
  have wf: "\<forall>it\<in>set sel. chunk_ref it < length mem"
    using sub io its(3) assms(7) by auto
  have ind: "indice (novo it) = indice_original it" if "it \<in> set sel" for it
    using that sub io [of it] its(3) assms(7) by (auto simp: novo_def)
  have dist_its: "distinct (map indice_original its)" by (simp add: its(2))
  then have d1: "distinct its" and inj: "inj_on indice_original (set its)"
    by (simp_all add: distinct_map)
  have "distinct sel" using d1 by (simp add: sel_def ord_def)
  moreover have "inj_on indice_original (set sel)" using inj sub by (rule inj_on_subset)
  ultimately have "distinct (map indice_original sel)" by (simp add: distinct_map)
  moreover have "sorted (map indice_original sel)" by (simp add: sel_def)
  ultimately have strict: "sorted_wrt (<) (map indice_original sel)"
    by (simp add: strict_sorted_iff)
  have cop: "copiar_com_similaridade mem sel =
      (mem @ map novo sel, [length mem..<length mem + length sel])"
    unfolding novo_def using wf by (rule copiar_spec)
  have ne: "cs \<noteq> []" "es \<noteq> []" using assms(1,2,3) by auto
  have res: "selecionar_chunks_relevantes mem cs es g f =
      (mem @ map novo sel, Inr [length mem..<length mem + length sel])"
    using ne its(1) cop
    by (simp add: selecionar_chunks_relevantes_def Let_def n_def [symmetric] ord_def [symmetric]
        sel_def [symmetric])
  have "map (\<lambda>r. indice ((mem @ map novo sel) ! r)) [length mem..<length mem + length sel] =
        map indice (map novo sel)"
    using map_nth_novos [of indice mem "map novo sel"] by simp
  also have "\<dots> = map indice_original sel" using ind by simp
  finally have idx: "map (\<lambda>r. indice ((mem @ map novo sel) ! r))
      [length mem..<length mem + length sel] = map indice_original sel" .
  show ?thesis
    apply (rule exI [of _ "mem @ map novo sel"])
    apply (rule exI [of _ "[length mem..<length mem + length sel]"])
    using res len_sel n_val small idx strict by simp
qed

theorem selecionar_conta_e_ordem_witness:
  "\<exists>mem' rs.
     selecionar_chunks_relevantes [chunk_exemplo 0, chunk_exemplo 1, chunk_exemplo 2] [0, 1, 2]
       [[1], [- 1], [2]] [1] (3 / 4) = (mem', Inr rs) \<and>
     length rs = min 3 (nat (num_selecionar 3 (3 / 4))) \<and>
     ((3::nat) < 2 ^ 53 \<longrightarrow> length rs = nat (max 1 (py_int (mult_double (real 3) (3 / 4))))) \<and>
     sorted_wrt (<) (map (\<lambda>r. indice (mem' ! r)) rs)"
proof (rule selecionar_conta_e_ordem)
  show "length [0::nat, 1, 2] = 3" by simp
  show "(1::nat) \<le> 3" by simp
  show "length [[1::real], [- 1], [2]] = 3" by simp
  show "\<forall>e\<in>set [[1::real], [- 1], [2]]. length e = length [1::real]" by simp
  show "(0::real) < 3 / 4" by simp
  show "(3::real) / 4 \<le> 1" by simp
  show "\<forall>i<3. [0::nat, 1, 2] ! i < length [chunk_exemplo 0, chunk_exemplo 1, chunk_exemplo 2] \<and>
          indice ([chunk_exemplo 0, chunk_exemplo 1, chunk_exemplo 2] ! ([0::nat, 1, 2] ! i)) = i"
    by (simp add: less_Suc_eq numeral_3_eq_3 chunk_exemplo_def all_conj_distrib)
qed

text \<open>
  Claim C9 as stated fails on the degenerate input: with chunks and no embeddings the
  function returns its argument, so the returned chunk is the input object itself (the
  same address), not a copy, and it has no \<open>similaridade\<close> key.
\<close>

theorem selecionar_devolve_a_entrada:
  "selecionar_chunks_relevantes [chunk_exemplo 0] [0] [] [1] (3 / 4) =
     ([chunk_exemplo 0], Inr [0]) \<and>
   similaridade ([chunk_exemplo 0] ! 0) = None"
  by (simp add: selecionar_chunks_relevantes_def chunk_exemplo_def)

text \<open>
  Claim C9, as amended. The call leaves every object that existed before it as it was,
  whether it returns or raises. With an empty chunk list or an empty embedding list it
  returns the input list itself. Otherwise every chunk it returns is a new object,
  different from the others, equal to one of the input chunks with the key
  \<open>similaridade\<close> set.
\<close>

theorem selecionar_nao_altera_entrada:
  assumes "\<forall>a\<in>set cs. a < length mem"
  shows "take (length mem) (fst (selecionar_chunks_relevantes mem cs es g f)) = mem \<and>
         (cs = [] \<or> es = [] \<longrightarrow>
            selecionar_chunks_relevantes mem cs es g f = (mem, Inr cs)) \<and>
         (cs \<noteq> [] \<and> es \<noteq> [] \<longrightarrow>
            (\<forall>rs. snd (selecionar_chunks_relevantes mem cs es g f) = Inr rs \<longrightarrow>
               distinct rs \<and>
               (\<forall>r\<in>set rs.
                  length mem \<le> r \<and>
                  r < length (fst (selecionar_chunks_relevantes mem cs es g f)) \<and>
                  (\<exists>a\<in>set cs. \<exists>s.
                     fst (selecionar_chunks_relevantes mem cs es g f) ! r =
                       (mem ! a)\<lparr>similaridade := Some s\<rparr>))))"
proof (cases "cs = [] \<or> es = []")
  case True
  then show ?thesis by (auto simp: selecionar_chunks_relevantes_def)
next
  case False
  show ?thesis
  proof (cases "calcular_similaridades cs g 0 es")
    case (Inl e)
    then show ?thesis using False by (simp add: selecionar_chunks_relevantes_def)
  next
    case (Inr its)
    define n where "n = nat (num_selecionar (length cs) f)"
    define sel where
      "sel = sort_key indice_original (take n (sort_key (\<lambda>x. - similaridade_item x) its))"
    define novo :: "item \<Rightarrow> chunk" where
      "novo = (\<lambda>it. (mem ! chunk_ref it)\<lparr>similaridade := Some (similaridade_item it)\<rparr>)"
    have sub: "set sel \<subseteq> set its"
      using set_take_subset [of n "sort_key (\<lambda>x. - similaridade_item x) its"]
      by (simp add: sel_def)
    have refs: "\<forall>it\<in>set sel. chunk_ref it \<in> set cs"
      using calcular_similaridades_refs [OF Inr] sub by blast
    then have wf: "\<forall>it\<in>set sel. chunk_ref it < length mem" using assms by blast
    have cop: "copiar_com_similaridade mem sel =
        (mem @ map novo sel, [length mem..<length mem + length sel])"
      unfolding novo_def using wf by (rule copiar_spec)
    have res: "selecionar_chunks_relevantes mem cs es g f =
        (mem @ map novo sel, Inr [length mem..<length mem + length sel])"
      using False Inr cop
      by (simp add: selecionar_chunks_relevantes_def Let_def n_def [symmetric] sel_def [symmetric])
    have each: "length mem \<le> r \<and> r < length (mem @ map novo sel) \<and>
        (\<exists>a\<in>set cs. \<exists>s. (mem @ map novo sel) ! r = (mem ! a)\<lparr>similaridade := Some s\<rparr>)"
      if "r \<in> set [length mem..<length mem + length sel]" for r
    proof -
      from that have r: "length mem \<le> r" "r - length mem < length sel" by auto
      let ?it = "sel ! (r - length mem)"
      have "(mem @ map novo sel) ! r = novo ?it" using r by (simp add: nth_append)
      moreover have "chunk_ref ?it \<in> set cs" using refs r(2) by simp
      ultimately show ?thesis using r by (auto simp: novo_def)
    qed
    show ?thesis using False each by (simp add: res)
  qed
qed

theorem selecionar_nao_altera_entrada_witness:
  "take (length [chunk_exemplo 0, chunk_exemplo 1, chunk_exemplo 2])
     (fst (selecionar_chunks_relevantes [chunk_exemplo 0, chunk_exemplo 1, chunk_exemplo 2]
            [0, 1, 2] [[1], [- 1], [2]] [1] (3 / 4))) =
     [chunk_exemplo 0, chunk_exemplo 1, chunk_exemplo 2] \<and>
   snd (selecionar_chunks_relevantes [chunk_exemplo 0, chunk_exemplo 1, chunk_exemplo 2]
            [0, 1, 2] [[1], [- 1], [2]] [1] (3 / 4)) = Inr [3, 4] \<and>
   (\<exists>rs. snd (selecionar_chunks_relevantes [chunk_exemplo 0, chunk_exemplo 1, chunk_exemplo 2]
            [0, 1, 2] [[1], [- 1], [2]] [1] (3 / 4)) = Inr rs \<and>
         distinct rs \<and>
         (\<forall>r\<in>set rs.
            length [chunk_exemplo 0, chunk_exemplo 1, chunk_exemplo 2] \<le> r \<and>
            r < length (fst (selecionar_chunks_relevantes
                  [chunk_exemplo 0, chunk_exemplo 1, chunk_exemplo 2]
                  [0, 1, 2] [[1], [- 1], [2]] [1] (3 / 4))) \<and>
            (\<exists>a\<in>set [0, 1, 2]. \<exists>s.
               fst (selecionar_chunks_relevantes
                  [chunk_exemplo 0, chunk_exemplo 1, chunk_exemplo 2]
                  [0, 1, 2] [[1], [- 1], [2]] [1] (3 / 4)) ! r =
                 ([chunk_exemplo 0, chunk_exemplo 1, chunk_exemplo 2] ! a)
                   \<lparr>similaridade := Some s\<rparr>)))"
proof -
  let ?mem = "[chunk_exemplo 0, chunk_exemplo 1, chunk_exemplo 2]"
  let ?R = "selecionar_chunks_relevantes ?mem [0, 1, 2] [[1], [- 1], [2]] [1] (3 / 4)"
  have wf: "\<forall>a\<in>set [0::nat, 1, 2]. a < length ?mem" by simp
  have ne: "[0::nat, 1, 2] \<noteq> [] \<and> [[1::real], [- 1], [2]] \<noteq> []" by simp
  have s: "snd ?R = Inr [3, 4]" by (subst exemplo_selecao) (rule snd_conv)
  note t = selecionar_nao_altera_entrada [OF wf, of "[[1], [- 1], [2]]" "[1]" "3 / 4"]
  note t1 = t [THEN conjunct1]
  note t3 = t [THEN conjunct2, THEN conjunct2, THEN mp, OF ne, THEN spec, THEN mp, OF s]
  from s t3 have e: "\<exists>rs. snd ?R = Inr rs \<and> distinct rs \<and>
         (\<forall>r\<in>set rs. length ?mem \<le> r \<and> r < length (fst ?R) \<and>
            (\<exists>a\<in>set [0, 1, 2]. \<exists>s. fst ?R ! r = (?mem ! a)\<lparr>similaridade := Some s\<rparr>))"
    by (intro exI [of _ "[3, 4]"] conjI) (rule s, rule t3 [THEN conjunct1], rule t3 [THEN conjunct2])
  show ?thesis by (intro conjI t1 s e)
qed

section \<open>Properties of the truncation before embedding\<close>

lemma rfind_espaco_spec:
  assumes "SP \<in> set s"
  shows "0 \<le> rfind_espaco s" and "nat (rfind_espaco s) < length s"
    and "s ! nat (rfind_espaco s) = SP"
    and "\<And>j. nat (rfind_espaco s) < j \<Longrightarrow> j < length s \<Longrightarrow> s ! j \<noteq> SP"
proof -
  let ?tw = "takeWhile (\<lambda>c. c \<noteq> SP) (rev s)"
  let ?dw = "dropWhile (\<lambda>c. c \<noteq> SP) (rev s)"
  have ne: "?dw \<noteq> []" using assms by (simp add: dropWhile_eq_Nil_conv)
  then have hd: "hd ?dw = SP" using hd_dropWhile [of "\<lambda>c. c \<noteq> SP" "rev s"] by simp
  have "rev s = ?tw @ ?dw" by simp
  then have s: "s = rev ?dw @ rev ?tw" by (metis rev_append rev_rev_ident)
  have len: "length s = length ?dw + length ?tw"
    using arg_cong [OF s, of length] by simp
  have r: "rfind_espaco s = int (length ?dw) - 1"
    using assms len by (simp add: rfind_espaco_def)
  have pos: "0 < length ?dw" using ne by simp
  have n: "nat (rfind_espaco s) = length ?dw - 1" using r pos by simp
  have at: "s ! (length ?dw - 1) = SP"
  proof -
    have "s ! (length ?dw - 1) = rev ?dw ! (length ?dw - 1)"
      using pos by (subst s) (simp add: nth_append)
    also have "\<dots> = hd ?dw" using ne pos by (simp add: rev_nth hd_conv_nth)
    finally show ?thesis using hd by simp
  qed
  have after: "s ! j \<noteq> SP" if "length ?dw - 1 < j" "j < length s" for j
  proof -
    have j: "length ?dw \<le> j" using that(1) by simp
    then have "s ! j = rev ?tw ! (j - length ?dw)"
      by (subst s) (simp add: nth_append)
    moreover have "j - length ?dw < length (rev ?tw)" using j that(2) len by simp
    then have "rev ?tw ! (j - length ?dw) \<in> set ?tw"
      by (metis nth_mem set_rev)
    ultimately show ?thesis by (auto dest: set_takeWhileD)
  qed
  show "0 \<le> rfind_espaco s" using r pos by simp
  show "nat (rfind_espaco s) < length s" using n pos len by arith
  show "s ! nat (rfind_espaco s) = SP" using n at by simp
  show "s ! j \<noteq> SP" if "nat (rfind_espaco s) < j" "j < length s" for j
    using that n after by simp
qed

lemma rfind_espaco_none: "SP \<notin> set s \<Longrightarrow> rfind_espaco s = - 1"
  by (simp add: rfind_espaco_def)

lemma fatiar_ate_prefix: "prefix (fatiar_ate s n) s"
  by (simp add: fatiar_ate_def take_is_prefix)

text \<open>
  Claim C5, as amended. A text of at most \<open>max_tokens * 4\<close> characters is returned
  unchanged. A longer text is cut to a prefix, of at most \<open>max_tokens * 4\<close> characters
  when the limit is not negative. When the slice \<open>texto[:max_chars]\<close> has a space at a
  position after the first, the result ends just before the last such space; when it has
  none, the result is the slice itself, wherever that falls.
\<close>

theorem truncar_spec:
  "(int (length txt) \<le> max_tokens * 4 \<longrightarrow> truncar_texto_para_embedding txt max_tokens = txt) \<and>
   (max_tokens * 4 < int (length txt) \<longrightarrow>
      prefix (truncar_texto_para_embedding txt max_tokens) txt \<and>
      (0 \<le> max_tokens \<longrightarrow>
         int (length (truncar_texto_para_embedding txt max_tokens)) \<le> max_tokens * 4) \<and>
      ((\<exists>i. 0 < i \<and> i < length (fatiar_ate txt (max_tokens * 4)) \<and> txt ! i = SP) \<longrightarrow>
         (\<exists>k. 0 < k \<and> k < length (fatiar_ate txt (max_tokens * 4)) \<and>
              truncar_texto_para_embedding txt max_tokens = take k txt \<and>
              txt ! k = SP \<and>
              (\<forall>j. k < j \<and> j < length (fatiar_ate txt (max_tokens * 4)) \<longrightarrow> txt ! j \<noteq> SP))) \<and>
      ((\<forall>i. 0 < i \<and> i < length (fatiar_ate txt (max_tokens * 4)) \<longrightarrow> txt ! i \<noteq> SP) \<longrightarrow>
         truncar_texto_para_embedding txt max_tokens = fatiar_ate txt (max_tokens * 4)))"
proof (intro conjI impI)
  show "truncar_texto_para_embedding txt max_tokens = txt" if "int (length txt) \<le> max_tokens * 4"
    using that by (simp add: truncar_texto_para_embedding_def)
next
  assume long: "max_tokens * 4 < int (length txt)"
  let ?pre = "fatiar_ate txt (max_tokens * 4)"
  let ?u = "rfind_espaco ?pre"
  have def: "truncar_texto_para_embedding txt max_tokens =
      (if 0 < ?u then fatiar_ate ?pre ?u else ?pre)"
    using long by (simp add: truncar_texto_para_embedding_def Let_def)
  obtain m where m: "?pre = take m txt"
    by (cases "0 \<le> max_tokens * 4") (simp_all add: fatiar_ate_def)
  have nth_pre: "?pre ! i = txt ! i" if "i < length ?pre" for i
    using that m by simp
  show "prefix (truncar_texto_para_embedding txt max_tokens) txt"
  proof (cases "0 < ?u")
    case True
    have "prefix (fatiar_ate ?pre ?u) ?pre" by (rule fatiar_ate_prefix)
    also have "prefix ?pre txt" by (rule fatiar_ate_prefix)
    finally show ?thesis using True by (simp add: def)
  next
    case False
    then show ?thesis using fatiar_ate_prefix [of "txt" "max_tokens * 4"] by (simp add: def)
  qed
  show "int (length (truncar_texto_para_embedding txt max_tokens)) \<le> max_tokens * 4"
    if "0 \<le> max_tokens"
  proof -
    have "int (length ?pre) \<le> max_tokens * 4" using that by (simp add: fatiar_ate_def)
    moreover have "length (fatiar_ate ?pre ?u) \<le> length ?pre"
      using fatiar_ate_prefix [of ?pre ?u] by (rule prefix_length_le)
    ultimately show ?thesis by (simp add: def)
  qed
  show "\<exists>k. 0 < k \<and> k < length ?pre \<and>
          truncar_texto_para_embedding txt max_tokens = take k txt \<and> txt ! k = SP \<and>
          (\<forall>j. k < j \<and> j < length ?pre \<longrightarrow> txt ! j \<noteq> SP)"
    if "\<exists>i. 0 < i \<and> i < length ?pre \<and> txt ! i = SP"
  proof -
    from that obtain i where i: "0 < i" "i < length ?pre" "txt ! i = SP" by blast
    then have "?pre ! i = SP" using nth_pre by simp
    then have mem: "SP \<in> set ?pre" using i(2) by (metis nth_mem)
    note sp = rfind_espaco_spec [OF mem]
    let ?k = "nat ?u"
    have ki: "i \<le> ?k"
    proof (rule ccontr)
      assume "\<not> i \<le> ?k"
      then have "?k < i" by simp
      then have "?pre ! i \<noteq> SP" using i(2) by (rule sp(4))
      then show False using \<open>?pre ! i = SP\<close> by simp
    qed
    then have kpos: "0 < ?u" using i(1) by simp
    have klt: "?k < length ?pre" by (rule sp(2))
    have "fatiar_ate ?pre ?u = take ?k ?pre" using kpos by (simp add: fatiar_ate_def)
    also have "\<dots> = take ?k txt"
    proof -
      have "?k \<le> m" using klt by (simp add: m)
      then show ?thesis by (simp add: m min_absorb1)
    qed
    finally have res: "truncar_texto_para_embedding txt max_tokens = take ?k txt"
      using kpos by (simp add: def)
    have at: "txt ! ?k = SP" using sp(3) nth_pre [OF klt] by simp
    have after: "\<forall>j. ?k < j \<and> j < length ?pre \<longrightarrow> txt ! j \<noteq> SP"
    proof (intro allI impI)
      fix j assume j: "?k < j \<and> j < length ?pre"
      then have "?pre ! j \<noteq> SP" using sp(4) [of j] by simp
      then show "txt ! j \<noteq> SP" using nth_pre [of j] j by simp
    qed
    have "0 < ?k" using ki i(1) by simp
    then show ?thesis using klt res at after by blast
  qed
  show "truncar_texto_para_embedding txt max_tokens = ?pre"
    if none: "\<forall>i. 0 < i \<and> i < length ?pre \<longrightarrow> txt ! i \<noteq> SP"
  proof (cases "SP \<in> set ?pre")
    case False
    then show ?thesis by (simp add: def rfind_espaco_none)
  next
    case True
    note sp = rfind_espaco_spec [OF True]
    have "\<not> 0 < ?u"
    proof
      assume "0 < ?u"
      then have "0 < nat ?u \<and> nat ?u < length ?pre" using sp(2) by simp
      then have "txt ! nat ?u \<noteq> SP" using none by blast
      then show False using sp(3) nth_pre [OF sp(2)] by simp
    qed
    then show ?thesis by (simp add: def)
  qed
qed

text \<open>
  Claim C5 as stated fails: a text with no space in its first \<open>max_chars\<close> characters
  is cut inside a word, and with a negative limit the slice counts from the end of the
  text, so the result is longer than \<open>max_tokens * 4\<close>.
\<close>

theorem truncar_corta_palavra:
  "truncar_texto_para_embedding ''abcdefghij'' 1 = ''abcd'' \<and>
   corta_palavra ''abcdefghij'' (truncar_texto_para_embedding ''abcdefghij'' 1) \<and>
   truncar_texto_para_embedding ''abcdefghij'' (- 1) = ''abcdef'' \<and>
   (- 1) * 4 < int (length (truncar_texto_para_embedding ''abcdefghij'' (- 1)))"
  by (simp add: truncar_texto_para_embedding_def fatiar_ate_def rfind_espaco_def corta_palavra_def
      isspace_def)

theorem truncar_spec_witness:
  "(1::int) * 4 < int (length ''ab cd efgh'') \<and> (0::int) \<le> 1 \<and>
   (\<exists>i. 0 < i \<and> i < length (fatiar_ate ''ab cd efgh'' (1 * 4)) \<and> ''ab cd efgh'' ! i = SP) \<and>
   prefix (truncar_texto_para_embedding ''ab cd efgh'' 1) ''ab cd efgh'' \<and>
   int (length (truncar_texto_para_embedding ''ab cd efgh'' 1)) \<le> 1 * 4 \<and>
   (\<exists>k. 0 < k \<and> k < length (fatiar_ate ''ab cd efgh'' (1 * 4)) \<and>
        truncar_texto_para_embedding ''ab cd efgh'' 1 = take k ''ab cd efgh'' \<and>
        ''ab cd efgh'' ! k = SP \<and>
        (\<forall>j. k < j \<and> j < length (fatiar_ate ''ab cd efgh'' (1 * 4)) \<longrightarrow>
             ''ab cd efgh'' ! j \<noteq> SP)) \<and>
   int (length ''ab'') \<le> (1::int) * 4 \<and> truncar_texto_para_embedding ''ab'' 1 = ''ab''"
proof -
  have a: "(1::int) * 4 < int (length ''ab cd efgh'')" by simp
  have z: "(0::int) \<le> 1" by simp
  have b: "\<exists>i. 0 < i \<and> i < length (fatiar_ate ''ab cd efgh'' (1 * 4)) \<and> ''ab cd efgh'' ! i = SP"
    by (rule exI [of _ 2]) (simp add: fatiar_ate_def)
  have c: "int (length ''ab'') \<le> (1::int) * 4" by simp
  note t = truncar_spec [of "''ab cd efgh''" 1, THEN conjunct2, THEN mp, OF a]
  note p = t [THEN conjunct1]
  note q = t [THEN conjunct2, THEN conjunct1, THEN mp, OF z]
  note e = t [THEN conjunct2, THEN conjunct2, THEN conjunct1, THEN mp, OF b]
  note u = truncar_spec [of "''ab''" 1, THEN conjunct1, THEN mp, OF c]
  show ?thesis by (intro conjI a z b c p q e u)
qed

section \<open>Failure of the embedding service\<close>

lemma norma_zeros: "norma zeros = 0"
  by (simp add: norma_zero_iff zeros_def)

lemma coseno_global_zero: "norma g = 0 \<Longrightarrow> calcular_similaridade_coseno e g = Inr 0"
  by (simp add: calcular_similaridade_coseno_def)

lemma calcular_similaridades_global_zero:
  assumes "norma g = 0" and "i + length es \<le> length cs"
  shows "\<exists>its. calcular_similaridades cs g i es = Inr its"
  using assms(2)
proof (induction es arbitrary: i)
  case Nil
  then show ?case by simp
next
  case (Cons e es)
  have i: "i < length cs" using Cons.prems by simp
  from Cons.IH [of "Suc i"] Cons.prems obtain resto where
    "calcular_similaridades cs g (Suc i) es = Inr resto" by auto
  then show ?case using i coseno_global_zero [OF assms(1)] by simp
qed

lemma selecionar_global_zero:
  assumes "norma g = 0" and "length es \<le> length cs"
  shows "\<exists>mem' rs. selecionar_chunks_relevantes mem cs es g f = (mem', Inr rs)"
proof (cases "cs = [] \<or> es = []")
  case True
  then show ?thesis by (simp add: selecionar_chunks_relevantes_def)
next
  case False
  from calcular_similaridades_global_zero [OF assms(1), of 0 es cs] assms(2) obtain its where
    "calcular_similaridades cs g 0 es = Inr its" by auto
  then show ?thesis using False
    by (simp add: selecionar_chunks_relevantes_def Let_def case_prod_beta)
qed

lemma gerar_embedding_falha:
  assumes "openai_disponivel env" and "\<forall>ts. isl (embeddings_create env ts)"
  shows "gerar_embedding env k s = (zeros, k)"
proof -
  have nf: "embeddings_create env ts \<noteq> Inr d" for ts d
    using assms(2) by (metis sum.disc(2))
  show ?thesis using assms(1)
    by (simp add: gerar_embedding_def Let_def nf split: sum.splits list.splits)
qed

lemma gerar_embeddings_batch_falha:
  assumes "openai_disponivel env" and "\<forall>ts. isl (embeddings_create env ts)"
  shows "gerar_embeddings_batch env k ts = (replicate (length ts) zeros, k)"
proof -
  have nf: "embeddings_create env ts \<noteq> Inr d" for ts d
    using assms(2) by (metis sum.disc(2))
  show ?thesis using assms(1)
    by (simp add: gerar_embeddings_batch_def Let_def nf split: sum.splits)
qed

lemma processar_texto_sem_embeddings:
  assumes "openai_disponivel env" and "\<forall>ts. isl (embeddings_create env ts)"
  shows "sucesso (processar_texto amb env k t tipo tam det) =
           sucesso_llm (gerar_texto_o4_mini env (limpar_texto t)
             (chunks_selecionados (processar_texto amb env k t tipo tam det)) tipo tam) \<and>
         erro (processar_texto amb env k t tipo tam det) =
           (if sucesso_llm (gerar_texto_o4_mini env (limpar_texto t)
                 (chunks_selecionados (processar_texto amb env k t tipo tam det)) tipo tam)
            then None
            else erro_llm (gerar_texto_o4_mini env (limpar_texto t)
                 (chunks_selecionados (processar_texto amb env k t tipo tam det)) tipo tam)) \<and>
         texto_gerado (processar_texto amb env k t tipo tam det) =
           (if sucesso_llm (gerar_texto_o4_mini env (limpar_texto t)
                 (chunks_selecionados (processar_texto amb env k t tipo tam det)) tipo tam)
            then texto_gerado_llm (gerar_texto_o4_mini env (limpar_texto t)
                 (chunks_selecionados (processar_texto amb env k t tipo tam det)) tipo tam)
            else [])"
proof -
  define cs where "cs = criar_chunks amb (limpar_texto t) 500 200 True"
  define es where "es = fst (gerar_embeddings_para_chunks env k cs)"
  have es: "gerar_embeddings_para_chunks env k cs = (es, k)" and les: "length es \<le> length cs"
    using gerar_embeddings_batch_falha [OF assms, of k "map texto cs"]
    by (auto simp: es_def gerar_embeddings_para_chunks_def)
  have "length es \<le> length [0..<length cs]" using les by simp
  from selecionar_global_zero [OF norma_zeros this, of cs literal_0_7] obtain mem' rs where
    sel: "selecionar_chunks_relevantes cs [0..<length cs] es zeros literal_0_7 = (mem', Inr rs)"
    by blast
  show ?thesis
    using sel es gerar_embedding_falha [OF assms, of k "limpar_texto t"]
    by (simp add: processar_texto_def processar_texto_completo_def Let_def cs_def [symmetric])
qed

lemma gerar_texto_exemplo:
  "gerar_texto_o4_mini ambiente_exemplo texto_original sel tipo tam =
     \<lparr>texto_gerado_llm = ''Resumo pronto.'', sucesso_llm = True, erro_llm = None,
      tokens_usados = 42\<rparr>"
  by (simp add: gerar_texto_o4_mini_def ambiente_exemplo_def inicializar_cliente_def Let_def
      strip_def lstrip_def rstrip_def isspace_def)

lemma ambiente_exemplo_falha:
  "openai_disponivel ambiente_exemplo" "\<forall>ts. isl (embeddings_create ambiente_exemplo ts)"
  by (simp_all add: ambiente_exemplo_def)

text \<open>
  Claim C1 as stated fails: in a run in which every embedding request raises, the
  exception is caught inside the client, which returns zero vectors; the selection and
  the generation still run, and the run ends with \<open>sucesso = True\<close> and no error.
\<close>

theorem falha_de_embedding_e_sucesso:
  "embeddings_create ambiente_exemplo [''Primeiro paragrafo.''] =
     Inl (ErroServico ''Connection error.'') \<and>
   gerar_embedding ambiente_exemplo 0 ''Primeiro paragrafo.'' = (zeros, 0) \<and>
   sucesso (processar_texto \<lparr>spacy = None\<rparr> ambiente_exemplo 0
      ''Primeiro paragrafo.\<newline>\<newline>Segundo paragrafo.'' ''Resumo'' ''Medio'' False) = True \<and>
   erro (processar_texto \<lparr>spacy = None\<rparr> ambiente_exemplo 0
      ''Primeiro paragrafo.\<newline>\<newline>Segundo paragrafo.'' ''Resumo'' ''Medio'' False) = None \<and>
   texto_gerado (processar_texto \<lparr>spacy = None\<rparr> ambiente_exemplo 0
      ''Primeiro paragrafo.\<newline>\<newline>Segundo paragrafo.'' ''Resumo'' ''Medio'' False) =
     ''Resumo pronto.''"
proof -
  have a: "embeddings_create ambiente_exemplo [''Primeiro paragrafo.''] =
      Inl (ErroServico ''Connection error.'')"
    by (simp add: ambiente_exemplo_def)
  have b: "gerar_embedding ambiente_exemplo 0 ''Primeiro paragrafo.'' = (zeros, 0)"
    using ambiente_exemplo_falha by (rule gerar_embedding_falha)
  note p = processar_texto_sem_embeddings [OF ambiente_exemplo_falha,
      of "\<lparr>spacy = None\<rparr>" 0 "''Primeiro paragrafo.\<newline>\<newline>Segundo paragrafo.''"
         "''Resumo''" "''Medio''" False]
  have c: "sucesso (processar_texto \<lparr>spacy = None\<rparr> ambiente_exemplo 0
      ''Primeiro paragrafo.\<newline>\<newline>Segundo paragrafo.'' ''Resumo'' ''Medio'' False) = True"
    using p [THEN conjunct1] by (simp only: gerar_texto_exemplo resposta_llm.simps)
  have d: "erro (processar_texto \<lparr>spacy = None\<rparr> ambiente_exemplo 0
      ''Primeiro paragrafo.\<newline>\<newline>Segundo paragrafo.'' ''Resumo'' ''Medio'' False) = None"
    using p [THEN conjunct2, THEN conjunct1]
    by (simp only: gerar_texto_exemplo resposta_llm.simps if_True)
  have e: "texto_gerado (processar_texto \<lparr>spacy = None\<rparr> ambiente_exemplo 0
      ''Primeiro paragrafo.\<newline>\<newline>Segundo paragrafo.'' ''Resumo'' ''Medio'' False) =
     ''Resumo pronto.''"
    using p [THEN conjunct2, THEN conjunct2]
    by (simp only: gerar_texto_exemplo resposta_llm.simps if_True)
  show ?thesis by (intro conjI a b c d e)
qed

text \<open>
  Claim C1, as amended. When the library is present and every embedding request raises,
  \<open>gerar_embedding\<close> returns the zero vector of dimension 1536 and
  \<open>gerar_embeddings_batch\<close> one zero vector per text; the run is not aborted: the
  selector and the generator run, and the success, the error and the generated text of
  the run are those of the generation call on the selected chunks.
\<close>

theorem falha_de_embedding_nao_aborta:
  assumes "openai_disponivel env" and "\<forall>ts. isl (embeddings_create env ts)"
  shows "gerar_embedding env k s = (zeros, k) \<and>
         gerar_embeddings_batch env k ts = (replicate (length ts) zeros, k) \<and>
         sucesso (processar_texto amb env k t tipo tam det) =
           sucesso_llm (gerar_texto_o4_mini env (limpar_texto t)
             (chunks_selecionados (processar_texto amb env k t tipo tam det)) tipo tam) \<and>
         erro (processar_texto amb env k t tipo tam det) =
           (if sucesso_llm (gerar_texto_o4_mini env (limpar_texto t)
                 (chunks_selecionados (processar_texto amb env k t tipo tam det)) tipo tam)
            then None
            else erro_llm (gerar_texto_o4_mini env (limpar_texto t)
                 (chunks_selecionados (processar_texto amb env k t tipo tam det)) tipo tam)) \<and>
         texto_gerado (processar_texto amb env k t tipo tam det) =
           (if sucesso_llm (gerar_texto_o4_mini env (limpar_texto t)
                 (chunks_selecionados (processar_texto amb env k t tipo tam det)) tipo tam)
            then texto_gerado_llm (gerar_texto_o4_mini env (limpar_texto t)
                 (chunks_selecionados (processar_texto amb env k t tipo tam det)) tipo tam)
            else [])"
  by (intro conjI gerar_embedding_falha [OF assms] gerar_embeddings_batch_falha [OF assms]
      processar_texto_sem_embeddings [OF assms, THEN conjunct1]
      processar_texto_sem_embeddings [OF assms, THEN conjunct2, THEN conjunct1]
      processar_texto_sem_embeddings [OF assms, THEN conjunct2, THEN conjunct2])

theorem falha_de_embedding_nao_aborta_witness:
  "openai_disponivel ambiente_exemplo \<and>
   (\<forall>ts. isl (embeddings_create ambiente_exemplo ts)) \<and>
   gerar_embedding ambiente_exemplo 0 ''Um texto.'' = (zeros, 0) \<and>
   gerar_embeddings_batch ambiente_exemplo 0 [''Um'', ''texto.''] =
     (replicate (length [''Um'', ''texto.'']) zeros, 0) \<and>
   sucesso (processar_texto \<lparr>spacy = None\<rparr> ambiente_exemplo 0 ''Um texto.'' ''Resumo'' ''Curto'' False) =
     sucesso_llm (gerar_texto_o4_mini ambiente_exemplo (limpar_texto ''Um texto.'')
       (chunks_selecionados
          (processar_texto \<lparr>spacy = None\<rparr> ambiente_exemplo 0 ''Um texto.'' ''Resumo'' ''Curto'' False))
       ''Resumo'' ''Curto'')"
proof -
  note h = ambiente_exemplo_falha
  note w = falha_de_embedding_nao_aborta [OF h,
      of 0 "''Um texto.''" "[''Um'', ''texto.'']" "\<lparr>spacy = None\<rparr>" "''Um texto.''"
         "''Resumo''" "''Curto''" False]
  show ?thesis
    by (intro conjI h w [THEN conjunct1] w [THEN conjunct2, THEN conjunct1]
        w [THEN conjunct2, THEN conjunct2, THEN conjunct1])
qed

end
